theory Spec2Isabelle
  imports Main "HOL-Library.Char_ord" "HOL-Library.List_Lexorder"
begin

unbundle bit_operations_syntax

section \<open>The delimiter splitter (split.go)\<close>

text \<open>
  Go strings are modelled as \<^typ>\<open>string\<close>; a \<^typ>\<open>char\<close> stands for one character
  of the Go string. The option constants are the values the Go constant block
  computes: \<open>StrictDelim = 0\<close> sits at \<open>iota = 0\<close>, and \<open>TrailingDelim = 1 << iota\<close>
  is declared at \<open>iota = 1\<close>, so the three flags are 2, 4 and 8.
\<close>

definition StrictDelim :: int where "StrictDelim = 0"
definition TrailingDelim :: int where "TrailingDelim = 2"
definition PreceedingDelim :: int where "PreceedingDelim = 4"
definition AnyDelim :: int where "AnyDelim = 8"

text \<open>\<open>strings.HasPrefix\<close>, \<open>strings.TrimPrefix\<close>, \<open>strings.HasSuffix\<close>, \<open>strings.TrimSuffix\<close>.\<close>

definition HasPrefix :: "string \<Rightarrow> string \<Rightarrow> bool" where
  "HasPrefix s p = (take (length p) s = p)"

definition TrimPrefix :: "string \<Rightarrow> string \<Rightarrow> string" where
  "TrimPrefix s p = (if HasPrefix s p then drop (length p) s else s)"

definition HasSuffix :: "string \<Rightarrow> string \<Rightarrow> bool" where
  "HasSuffix s suf = (length suf \<le> length s \<and> drop (length s - length suf) s = suf)"

definition TrimSuffix :: "string \<Rightarrow> string \<Rightarrow> string" where
  "TrimSuffix s suf = (if HasSuffix s suf then take (length s - length suf) s else s)"

text \<open>
  \<open>strings.Split\<close>: with an empty separator the string is cut after every character
  (after every UTF-8 sequence in Go, so a \<^typ>\<open>char\<close> is to be read as one character,
  not one byte, there; the empty string gives no piece at all); otherwise it is cut at every
  non-overlapping occurrence of the separator, scanning from the left, and the empty
  string gives the single piece \<open>""\<close>. \<open>split_sep d ds piece s\<close> scans \<open>s\<close> for the
  separator \<open>d # ds\<close>, \<open>piece\<close> being the characters read since the last cut.
\<close>

fun split_sep :: "char \<Rightarrow> string \<Rightarrow> string \<Rightarrow> string \<Rightarrow> string list" where
  "split_sep d ds piece [] = [piece]"
| "split_sep d ds piece (c # cs) =
     (if HasPrefix (c # cs) (d # ds)
      then piece # split_sep d ds [] (drop (length ds) cs)
      else split_sep d ds (piece @ [c]) cs)"

definition Split :: "string \<Rightarrow> string \<Rightarrow> string list" where
  "Split s sep =
     (case sep of
        [] \<Rightarrow> map (\<lambda>c. [c]) s
      | d # ds \<Rightarrow> split_sep d ds [] s)"

text \<open>The inner loop of the \<open>AnyDelim\<close> branch: every part is followed by a marker.\<close>

fun any_parts :: "string \<Rightarrow> string list \<Rightarrow> string list \<Rightarrow> string list" where
  "any_parts delim words [] = words"
| "any_parts delim words (part # parts) =
     (if length part > 0
      then any_parts delim (words @ [part, delim]) parts
      else any_parts delim (words @ [delim]) parts)"

text \<open>
  The first loop of \<open>SplitCommand\<close> (run only when \<open>options \<noteq> StrictDelim\<close>): it
  rewrites the arguments into \<open>words\<close>, inserting the delimiter as a marker.
\<close>

fun mark_words :: "string \<Rightarrow> int \<Rightarrow> string list \<Rightarrow> string list \<Rightarrow> string list" where
  "mark_words delim options words [] = words"
| "mark_words delim options words (arg # args) =
     (if arg = delim then mark_words delim options (words @ [arg]) args
      else if (options AND AnyDelim) \<noteq> 0
      then mark_words delim options (any_parts delim words (Split arg delim)) args
      else
        let (words1, arg1) =
              (if (options AND PreceedingDelim) \<noteq> 0 \<and> HasPrefix arg delim
               then (words @ [delim], TrimPrefix arg delim)
               else (words, arg))
        in if (options AND TrailingDelim) \<noteq> 0 \<and> HasSuffix arg1 delim
           then mark_words delim options (words1 @ [TrimSuffix arg1 delim, delim]) args
           else mark_words delim options (words1 @ [arg1]) args)"

text \<open>The Go slice expression \<open>xs[lo:hi]\<close>.\<close>

definition slice :: "'a list \<Rightarrow> nat \<Rightarrow> nat \<Rightarrow> 'a list" where
  "slice xs lo hi = take (hi - lo) (drop lo xs)"

text \<open>
  The second loop, \<open>for i, arg := range args\<close>: the last argument is the part of
  \<open>args\<close> still to be visited, \<open>i\<close> the index of its head. It returns the final
  \<open>start\<close> and \<open>cmds\<close>.
\<close>

fun group_loop ::
  "string list \<Rightarrow> string \<Rightarrow> nat \<Rightarrow> nat \<Rightarrow> string list list \<Rightarrow> string list
    \<Rightarrow> nat \<times> string list list" where
  "group_loop args delim start i cmds [] = (start, cmds)"
| "group_loop args delim start i cmds (arg # rest) =
     (if arg = delim
      then group_loop args delim (i + 1) (i + 1)
             (if i > start then cmds @ [slice args start i] else cmds) rest
      else group_loop args delim start (i + 1) cmds rest)"

definition SplitCommand :: "string list \<Rightarrow> string \<Rightarrow> int \<Rightarrow> string list list" where
  "SplitCommand args delim options =
     (let args1 = (if options \<noteq> StrictDelim then mark_words delim options [] args else args);
          (start, cmds) = group_loop args1 delim 0 0 [] args1
      in if start < length args1 then cmds @ [drop start args1] else cmds)"

text \<open>
  The specification of the strict policy, written from its wording: cut the sequence
  at every element equal to the delimiter, and drop the empty groups.
\<close>

fun split_on :: "'a \<Rightarrow> 'a list \<Rightarrow> 'a list list" where
  "split_on d [] = [[]]"
| "split_on d (x # xs) =
     (if x = d then [] # split_on d xs
      else (case split_on d xs of g # gs \<Rightarrow> (x # g) # gs | [] \<Rightarrow> [[x]]))"

definition spec_strict_groups :: "string \<Rightarrow> string list \<Rightarrow> string list list" where
  "spec_strict_groups delim args = filter (\<lambda>g. g \<noteq> []) (split_on delim args)"

definition finish_groups :: "string list \<Rightarrow> nat \<times> string list list \<Rightarrow> string list list" where
  "finish_groups args r = (case r of (start, cmds) \<Rightarrow>
     if start < length args then cmds @ [drop start args] else cmds)"

text \<open>The argument vector of the repository's TestSplit.\<close>

definition test_args :: "string list" where
  "test_args = [''a'', '';b'', ''c;'', ''d;e'', '';f;g;'', '';'', ''h'']"

section \<open>The command tree (commander.go)\<close>

subsection \<open>Data\<close>

text \<open>
  A \<open>*Command\<close> is an address into the store \<open>cmds\<close>; the \<open>Defaults\<close> and \<open>Flags\<close>
  fields point to option structs in the store \<open>structs\<close>, so that a struct parsed into
  in place and a freshly registered copy are different things. An option struct is
  seen through the flags package only: a map from flag names to values. A nil
  pointer, slice, writer or function is \<open>None\<close>. The fields \<open>Help\<close> and
  \<open>Description\<close> only feed the text layout of the help pages and are left out.
\<close>

type_synonym addr = nat
type_synonym ref = nat

datatype gval = VString string | VInt int | VBool bool

type_synonym flagstruct = "string \<rightharpoonup> gval"

datatype writer = OsStderr | Writer nat | ParseBuffer

datatype error = UsageError addr "string option" | FuncError string

datatype policy = ExitOnError | ContinueOnError
  | UserOnError "addr \<Rightarrow> string list \<Rightarrow> error \<Rightarrow> error option"

record Command =
  parent :: "addr option"
  Name :: string
  Parameters :: string
  MinArgs :: int
  MaxArgs :: int
  Defaults :: "ref option"
  Flags :: "ref option"
  Func :: "nat option"
  SubCommands :: "addr list option"
  Stderr :: "writer option"
  OnError :: "policy option"

text \<open>
  What the program writes, in order. \<open>Printf\<close> is a \<open>c.printf\<close> with its full text.
  The lines laid out by the flags and indent packages are recorded by what they
  show, not by their text: \<open>UsageLine w c ps\<close> is the usage line of node \<open>c\<close> with the
  positional hint \<open>ps\<close>, \<open>FlagsHelp w c\<close> the flag listing of node \<open>c\<close>, both written
  to \<open>w\<close>. \<open>ParseBuffer\<close> is the local buffer of \<open>parse\<close>, which nothing reads.
\<close>

datatype event =
    Printf writer string
  | FlagsHelp writer addr
  | UsageLine writer addr string

record state =
  nodes :: "addr \<Rightarrow> Command"
  structs :: "ref \<Rightarrow> flagstruct"
  next_ref :: ref
  out :: "event list"

text \<open>
  A call that can panic returns a \<open>result\<close>. \<open>Run\<close> ends in an \<open>outcome\<close>: it returns
  an error or nil, the process exits (\<open>ExitOnError\<close>), or a panic leaves it.
\<close>

datatype 'a result = Ok 'a | Panic

datatype outcome = Return "error option" | Exit int | Panicked

text \<open>
  The two collaborators are parameters of the model. A \<open>parser\<close> is what
  \<open>set.Parse\<close> and \<open>set.Args\<close> of the flags package do to a registered struct: the
  struct after parsing, the parse error if any, and the remaining arguments. An
  \<open>action\<close> is a \<open>Func\<close>: it gets the node, the arguments and the state, and returns
  its error and the state it leaves; \<open>Func\<close> fields name actions by number.
\<close>

type_synonym parser = "flagstruct \<Rightarrow> string list \<Rightarrow> flagstruct \<times> string option \<times> string list"

type_synonym action = "addr \<Rightarrow> string list \<Rightarrow> state \<Rightarrow> error option \<times> state"

definition NoArgs :: int where "NoArgs = - 1"

definition newline :: string where "newline = [CHR 0x0A]"

text \<open>The verb \<open>%d\<close> of the fmt package, and \<open>strings.Join\<close>.\<close>

function itoa_nat :: "nat \<Rightarrow> string" where
  "itoa_nat n =
     (if n < 10 then [''0123456789'' ! n]
      else itoa_nat (n div 10) @ [''0123456789'' ! (n mod 10)])"
  by pat_completeness auto
termination
  by (relation "measure (\<lambda>n. n)") auto

declare itoa_nat.simps [simp del]

definition fmt_d :: "int \<Rightarrow> string" where
  "fmt_d i = (if i < 0 then ''-'' @ itoa_nat (nat (- i)) else itoa_nat (nat i))"

fun Join :: "string list \<Rightarrow> string \<Rightarrow> string" where
  "Join [] sep = []"
| "Join [s] sep = s"
| "Join (s # t # ss) sep = s @ sep @ Join (t # ss) sep"

subsection \<open>Walking the parent chain\<close>

text \<open>
  \<open>Command\<close>, \<open>stderr\<close>, \<open>onError\<close> and \<open>Lookup\<close> follow the \<open>parent\<close> pointers. On a
  cyclic chain the Go code does not return, and the functions below are \<open>None\<close>.
  \<open>command_path\<close> is the method \<open>Command\<close>.
\<close>

partial_function (option) command_path :: "(addr \<Rightarrow> Command) \<Rightarrow> addr \<Rightarrow> string option" where
  "command_path h c =
     (case parent (h c) of
        Some p \<Rightarrow> Option.bind (command_path h p) (\<lambda>s. Some (s @ '' '' @ Name (h c)))
      | None \<Rightarrow> Some (Name (h c)))"

partial_function (option) stderr :: "(addr \<Rightarrow> Command) \<Rightarrow> addr option \<Rightarrow> writer option" where
  "stderr h c =
     (case c of
        None \<Rightarrow> Some OsStderr
      | Some a \<Rightarrow>
          (case Stderr (h a) of
             Some w \<Rightarrow> Some w
           | None \<Rightarrow> stderr h (parent (h a))))"

partial_function (option) onError_loop ::
  "(addr \<Rightarrow> Command) \<Rightarrow> addr option \<Rightarrow> policy option option" where
  "onError_loop h c =
     (case c of
        None \<Rightarrow> Some None
      | Some a \<Rightarrow>
          (case OnError (h a) of
             Some f \<Rightarrow> Some (Some f)
           | None \<Rightarrow> onError_loop h (parent (h a))))"

definition onError :: "(addr \<Rightarrow> Command) \<Rightarrow> addr \<Rightarrow> error option \<Rightarrow> policy option option" where
  "onError h c err =
     (case err of
        None \<Rightarrow> Some None
      | Some e \<Rightarrow> onError_loop h (Some c))"

text \<open>\<open>flags.Lookup\<close>: the value of the named flag, nil for a nil struct or an unknown name.\<close>

definition flags_Lookup :: "state \<Rightarrow> ref option \<Rightarrow> string \<Rightarrow> gval option" where
  "flags_Lookup st opts name =
     (case opts of None \<Rightarrow> None | Some r \<Rightarrow> structs st r name)"

partial_function (option) Lookup ::
  "state \<Rightarrow> addr option \<Rightarrow> string \<Rightarrow> string \<Rightarrow> gval option option" where
  "Lookup st c cmd name =
     (case c of
        None \<Rightarrow> Some None
      | Some a \<Rightarrow>
          (if (cmd = [] \<or> cmd = Name (nodes st a))
              \<and> flags_Lookup st (Flags (nodes st a)) name \<noteq> None
           then Some (flags_Lookup st (Flags (nodes st a)) name)
           else Lookup st (parent (nodes st a)) cmd name))"

text \<open>The method \<open>Error\<close> of \<open>UsageError\<close>; any other error is its own message.\<close>

definition Error :: "state \<Rightarrow> error \<Rightarrow> string option" where
  "Error st e =
     (case e of
        UsageError c cause \<Rightarrow>
          Option.bind (command_path (nodes st) c) (\<lambda>p.
            (case cause of
               Some m \<Rightarrow> Some (p @ '': '' @ m)
             | None \<Rightarrow> Some (p @ '': incorrect usage'')))
      | FuncError m \<Rightarrow> Some m)"

text \<open>
  \<open>c.printf\<close> writes to \<open>c.stderr()\<close>; \<open>emit\<close> is the same for a line that is recorded
  by what it shows. \<open>print_error\<close> is \<open>c.printf("%v\n", err)\<close>.
\<close>

definition emit :: "state \<Rightarrow> addr \<Rightarrow> (writer \<Rightarrow> event) \<Rightarrow> state option" where
  "emit st c ev =
     Option.bind (stderr (nodes st) (Some c)) (\<lambda>w. Some (st\<lparr>out := out st @ [ev w]\<rparr>))"

definition printf :: "state \<Rightarrow> addr \<Rightarrow> string \<Rightarrow> state option" where
  "printf st c text = emit st c (\<lambda>w. Printf w text)"

definition print_error :: "state \<Rightarrow> addr \<Rightarrow> error \<Rightarrow> state option" where
  "print_error st c e =
     Option.bind (Error st e) (\<lambda>text. printf st c (text @ newline))"

subsection \<open>Sub-commands and the positional hint\<close>

text \<open>\<open>subs\<close> is the slice \<open>c.SubCommands\<close> as a list, nil being empty.\<close>

definition subs :: "Command \<Rightarrow> addr list" where
  "subs c = (case SubCommands c of None \<Rightarrow> [] | Some scs \<Rightarrow> scs)"

definition subCommands :: "state \<Rightarrow> addr \<Rightarrow> string list" where
  "subCommands st c = sort (map (\<lambda>sc. Name (nodes st sc)) (subs (nodes st c)))"

definition findSub :: "state \<Rightarrow> addr \<Rightarrow> string \<Rightarrow> addr option" where
  "findSub st c name = find (\<lambda>sc. Name (nodes st sc) = name) (subs (nodes st c))"

text \<open>
  \<open>parameters\<close>: the loop writes \<open>" arg0 arg1 ..."\<close> into the builder, and the
  result is the builder's string from index 1, which panics on the empty string.
\<close>

function arg_loop :: "int \<Rightarrow> int \<Rightarrow> string \<Rightarrow> string" where
  "arg_loop i n b = (if i < n then arg_loop (i + 1) n (b @ '' arg'' @ fmt_d i) else b)"
  by pat_completeness auto
termination
  by (relation "measure (\<lambda>(i, n, b). nat (n - i))") auto

declare arg_loop.simps [simp del]

definition parameters :: "Command \<Rightarrow> string result" where
  "parameters c =
     (if Parameters c \<noteq> [] then Ok (Parameters c)
      else if MaxArgs c = NoArgs then Ok []
      else
        let b = arg_loop 0 (MinArgs c) [];
            b = (if MaxArgs c = 0 \<or> MaxArgs c < MinArgs c then b @ '' ...'' else b)
        in if length b < 1 then Panic else Ok (drop 1 b))"

definition getFlags :: "Command \<Rightarrow> ref option" where
  "getFlags c = (case Flags c of Some r \<Rightarrow> Some r | None \<Rightarrow> Defaults c)"

subsection \<open>parse\<close>

text \<open>The three checks on the number of positional arguments, at the end of \<open>parse\<close>.\<close>

definition count_args :: "addr \<Rightarrow> Command \<Rightarrow> string list \<Rightarrow> error option" where
  "count_args c cm args =
     (if MaxArgs cm = NoArgs \<and> length args \<noteq> 0
      then Some (UsageError c (Some ''takes no arguments''))
      else if int (length args) < MinArgs cm
      then Some (UsageError c (Some (''requires at least '' @ fmt_d (MinArgs cm) @ '' arguments'')))
      else if MaxArgs cm > 0 \<and> int (length args) > MaxArgs cm
      then Some (UsageError c (Some (''takes no more than '' @ fmt_d (MaxArgs cm) @ '' arguments'')))
      else None)"

definition set_Flags :: "state \<Rightarrow> addr \<Rightarrow> ref option \<Rightarrow> state" where
  "set_Flags st c r = st\<lparr>nodes := (nodes st)(c := (nodes st c)\<lparr>Flags := r\<rparr>)\<rparr>"

definition set_Stderr :: "state \<Rightarrow> addr \<Rightarrow> writer option \<Rightarrow> state" where
  "set_Stderr st c w = st\<lparr>nodes := (nodes st)(c := (nodes st c)\<lparr>Stderr := w\<rparr>)\<rparr>"

definition set_parent :: "state \<Rightarrow> addr \<Rightarrow> addr \<Rightarrow> state" where
  "set_parent st sc c = st\<lparr>nodes := (nodes st)(sc := (nodes st sc)\<lparr>parent := Some c\<rparr>)\<rparr>"

text \<open>
  \<open>flags.RegisterNew\<close> copies the struct it is given into a new one and registers
  the copy. \<open>register\<close> is the head of \<open>parse\<close>: with \<open>Defaults\<close> set the \<open>Flags\<close> field
  is replaced by such a copy, otherwise a set \<open>Flags\<close> struct is registered itself.
  It returns the struct the flag set writes to (\<open>None\<close> for no flag set).
\<close>

definition RegisterNew :: "state \<Rightarrow> ref \<Rightarrow> ref \<times> state" where
  "RegisterNew st d =
     (let r = next_ref st
      in (r, st\<lparr>structs := (structs st)(r := structs st d), next_ref := Suc r\<rparr>))"

definition register :: "state \<Rightarrow> addr \<Rightarrow> (ref option \<times> state) option" where
  "register st c =
     (case Defaults (nodes st c) of
        Some d \<Rightarrow>
          Option.bind (command_path (nodes st) c) (\<lambda>name.
            case RegisterNew st d of (r, st1) \<Rightarrow> Some (Some r, set_Flags st1 c (Some r)))
      | None \<Rightarrow>
          (case Flags (nodes st c) of
             Some r \<Rightarrow> Option.bind (command_path (nodes st) c) (\<lambda>name. Some (Some r, st))
           | None \<Rightarrow> Some (None, st)))"

text \<open>
  \<open>parse\<close> points \<open>c.Stderr\<close> to a local buffer while it runs and restores it on
  every way out. The parser's own messages go to that buffer and are not recorded.
\<close>

definition parse ::
  "parser \<Rightarrow> state \<Rightarrow> addr \<Rightarrow> string list
    \<Rightarrow> ((string list \<times> error option) result \<times> state) option" where
  "parse P st c args =
     Option.bind (register st c) (\<lambda>(flagset, st1).
       let oStderr = Stderr (nodes st1 c);
           st2 = set_Stderr st1 c (Some ParseBuffer)
       in (case flagset of
             Some r \<Rightarrow>
               Option.bind (stderr (nodes st2) (Some c)) (\<lambda>w.
                 (case P (structs st2 r) args of
                    (fs, perr, rest) \<Rightarrow>
                      (let st3 = st2\<lparr>structs := (structs st2)(r := fs)\<rparr>
                       in (case perr of
                             Some m \<Rightarrow>
                               (case parameters (nodes st3 c) of
                                  Panic \<Rightarrow> Some (Panic, set_Stderr st3 c oStderr)
                                | Ok ps \<Rightarrow>
                                    Some (Ok (args, Some (UsageError c (Some m))),
                                          set_Stderr (st3\<lparr>out := out st3 @ [FlagsHelp w c]\<rparr>)
                                            c oStderr))
                           | None \<Rightarrow>
                               Some (Ok (rest, count_args c (nodes st3 c) rest),
                                     set_Stderr st3 c oStderr)))))
           | None \<Rightarrow>
               Some (Ok (args, count_args c (nodes st2 c) args), set_Stderr st2 c oStderr)))"

subsection \<open>Help\<close>

text \<open>
  \<open>descend\<close> is the loop of \<open>Help\<close> over its arguments, \<open>sub_lines\<close> the loop over
  the sub-commands, and \<open>sort_subs\<close> the \<open>sort.Slice\<close> that orders \<open>c.SubCommands\<close>
  by name in place. \<open>sort.Slice\<close> is not stable: where children share a name the Go
  code does not fix their order, and the model keeps the order they had. The
  description lines are not recorded.
\<close>

fun descend :: "state \<Rightarrow> addr \<Rightarrow> string \<Rightarrow> string list \<Rightarrow> error + addr" where
  "descend st c command [] = Inr c"
| "descend st c command (name # names) =
     (if length (subs (nodes st c)) = 0
      then Inl (FuncError (command @ '' has no subcommands''))
      else case findSub st c name of
             None \<Rightarrow> Inl (FuncError (command @ '' has no subcommand '' @ name))
           | Some c1 \<Rightarrow> descend st c1 (command @ '' '' @ name) names)"

fun sub_lines :: "state \<Rightarrow> addr \<Rightarrow> addr list \<Rightarrow> (unit result \<times> state) option" where
  "sub_lines st c [] = Some (Ok (), st)"
| "sub_lines st c (sc # scs) =
     (case parameters (nodes st sc) of
        Panic \<Rightarrow> Some (Panic, st)
      | Ok ps \<Rightarrow>
          let ps1 = (if ps = [] \<and> length (subs (nodes st sc)) > 0
                     then ''subcommand [...]'' else ps)
          in Option.bind (emit st c (\<lambda>w. UsageLine w sc ps1)) (\<lambda>st1. sub_lines st1 c scs))"

definition sort_subs :: "state \<Rightarrow> addr \<Rightarrow> state" where
  "sort_subs st c =
     st\<lparr>nodes := (nodes st)(c := (nodes st c)
        \<lparr>SubCommands := Some (sort_key (\<lambda>sc. Name (nodes st sc)) (subs (nodes st c)))\<rparr>)\<rparr>"

text \<open>
  \<open>help_page st w c\<close> is the part of \<open>Help\<close> after the descent: the page of node \<open>c\<close>,
  where \<open>w\<close> is the writer resolved at the start of \<open>Help\<close>. \<open>Help\<close> resolves that
  writer from the node it is called on, moves to the node's parent when it has one,
  descends along its arguments and shows the page of the node it reaches.
\<close>

definition help_page :: "state \<Rightarrow> writer \<Rightarrow> addr \<Rightarrow> (error option result \<times> state) option" where
  "help_page st w c =
     (if length (subs (nodes st c)) = 0
      then (case parameters (nodes st c) of
              Panic \<Rightarrow> Some (Panic, st)
            | Ok ps \<Rightarrow>
                Option.bind (emit st c (\<lambda>cw. UsageLine cw c ps)) (\<lambda>st1.
                  Some (Ok None, st1\<lparr>out := out st1 @ [FlagsHelp w c]\<rparr>)))
      else
        Option.bind (emit st c (\<lambda>cw. UsageLine cw c ''subcommand [...]'')) (\<lambda>st1.
          let st2 = st1\<lparr>out := out st1 @ [FlagsHelp w c]\<rparr>;
              st3 = sort_subs st2 c
          in Option.bind (printf st3 c (newline @ ''Available sub commands:'')) (\<lambda>st4.
               Option.bind (sub_lines st4 c (subs (nodes st4 c))) (\<lambda>(r, st5).
                 case r of
                   Panic \<Rightarrow> Some (Panic, st5)
                 | Ok u \<Rightarrow> Some (Ok None, st5)))))"

definition Help :: "state \<Rightarrow> addr \<Rightarrow> string list \<Rightarrow> (error option result \<times> state) option" where
  "Help st c args =
     Option.bind (stderr (nodes st) (Some c)) (\<lambda>w.
       let c1 = (case parent (nodes st c) of Some p \<Rightarrow> p | None \<Rightarrow> c)
       in case descend st c1 (Name (nodes st c1)) args of
            Inl e \<Rightarrow> Some (Ok (Some e), st)
          | Inr t \<Rightarrow> help_page st w t)"

subsection \<open>Run\<close>

text \<open>
  \<open>call_policy\<close> calls an \<open>OnError\<close> function. \<open>run_deferred\<close> is the deferred
  function of \<open>Run\<close> and \<open>RunSubcommands\<close>, given the value of \<open>err\<close> at the time it
  runs; \<open>panicking_deferred\<close> is the same function run while a panic unwinds: the
  policy is called, and only an exit stops the panic.
\<close>

definition call_policy ::
  "policy \<Rightarrow> state \<Rightarrow> addr \<Rightarrow> string list \<Rightarrow> error \<Rightarrow> (outcome \<times> state) option" where
  "call_policy f st c args e =
     (case f of
        ExitOnError \<Rightarrow> Option.bind (print_error st c e) (\<lambda>st1. Some (Exit 1, st1))
      | ContinueOnError \<Rightarrow> Option.bind (print_error st c e) (\<lambda>st1. Some (Return None, st1))
      | UserOnError g \<Rightarrow> Some (Return (g c args e), st))"

definition run_deferred ::
  "state \<Rightarrow> addr \<Rightarrow> string list \<Rightarrow> error option \<Rightarrow> (outcome \<times> state) option" where
  "run_deferred st c args err =
     Option.bind (onError (nodes st) c err) (\<lambda>pol.
       case pol of
         None \<Rightarrow> Some (Return err, st)
       | Some f \<Rightarrow>
           (case err of
              Some e \<Rightarrow> call_policy f st c args e
            | None \<Rightarrow> Some (Return err, st)))"

definition panicking_deferred ::
  "state \<Rightarrow> addr \<Rightarrow> string list \<Rightarrow> error option \<Rightarrow> (outcome \<times> state) option" where
  "panicking_deferred st c args err =
     Option.bind (run_deferred st c args err) (\<lambda>(r, st1).
       case r of
         Exit n \<Rightarrow> Some (Exit n, st1)
       | Return e \<Rightarrow> Some (Panicked, st1)
       | Panicked \<Rightarrow> Some (Panicked, st1))"

text \<open>
  How the body of \<open>Run\<close> is left, before the deferred function runs: by a \<open>return\<close>
  with the value of \<open>err\<close>, by a panic (with the value \<open>err\<close> has at that point), or
  because a sub-command exited the process. \<open>flow_of\<close> is \<open>return c.runsub(...)\<close>: a
  returned error is returned, and a panic in the sub-command unwinds through this
  call with \<open>err\<close> still nil. \<open>deferred\<close> then gives the outcome of the call; it runs
  with the value of \<open>args\<close> after \<open>parse\<close>.
\<close>

datatype flow = Returning "error option" | Panicking "error option" | Exiting int

definition flow_of :: "outcome \<Rightarrow> flow" where
  "flow_of r =
     (case r of
        Return err \<Rightarrow> Returning err
      | Exit n \<Rightarrow> Exiting n
      | Panicked \<Rightarrow> Panicking None)"

definition deferred :: "addr \<Rightarrow> flow \<times> string list \<times> state \<Rightarrow> (outcome \<times> state) option" where
  "deferred c r =
     (case r of
        (Returning err, args, st) \<Rightarrow> run_deferred st c args err
      | (Panicking err, args, st) \<Rightarrow> panicking_deferred st c args err
      | (Exiting n, args, st) \<Rightarrow> Some (Exit n, st))"

text \<open>
  \<open>parse_failed\<close> is the branch \<open>if err != nil\<close> after \<open>parse\<close>: the error is printed,
  \<open>Help\<close> is called on the node of a \<open>UsageError\<close> (its result is dropped), and the
  error is returned.
\<close>

definition parse_failed ::
  "state \<Rightarrow> addr \<Rightarrow> string list \<Rightarrow> error \<Rightarrow> (flow \<times> string list \<times> state) option" where
  "parse_failed st c args err =
     Option.bind (print_error st c err) (\<lambda>st1.
       case err of
         UsageError uc cause \<Rightarrow>
           Option.bind (Help st1 uc []) (\<lambda>(r, st2).
             case r of
               Panic \<Rightarrow> Some (Panicking (Some err), args, st2)
             | Ok e \<Rightarrow> Some (Returning (Some err), args, st2))
       | FuncError m \<Rightarrow> Some (Returning (Some err), args, st1))"

definition sub_required :: "state \<Rightarrow> addr \<Rightarrow> error" where
  "sub_required st c =
     UsageError c (Some (''sub command required {'' @ Join (subCommands st c) '', '' @ ''}''))"

definition unknown_command :: "addr \<Rightarrow> string \<Rightarrow> error" where
  "unknown_command c cmd = UsageError c (Some (cmd @ '': unknown command''))"

text \<open>
  \<open>Run\<close> and \<open>runsub\<close> call each other; the body of \<open>runsub\<close> is written out inside
  \<open>Run\<close>, and \<open>runsub\<close> itself is defined after it. \<open>Run\<close> is its body followed by
  the deferred function.
\<close>

partial_function (option) Run ::
  "parser \<Rightarrow> (nat \<Rightarrow> action) \<Rightarrow> addr \<Rightarrow> string list \<Rightarrow> state \<Rightarrow> (outcome \<times> state) option" where
  "Run P A c args st =
     Option.bind
       (Option.bind (parse P st c args) (\<lambda>(pr, st1).
          case pr of
            Panic \<Rightarrow> Some (Panicking None, args, st1)
          | Ok (args1, perr) \<Rightarrow>
              (case perr of
                 Some err \<Rightarrow> parse_failed st1 c args1 err
               | None \<Rightarrow>
                   if SubCommands (nodes st1 c) \<noteq> None \<and> length args1 > 0
                   then
                     Option.bind
                       (if length args1 < 1 then Some (Return (Some (sub_required st1 c)), st1)
                        else
                          (case find (\<lambda>sc. Name (nodes st1 sc) = hd args1) (subs (nodes st1 c)) of
                             Some sc \<Rightarrow> Run P A sc (tl args1) (set_parent st1 sc c)
                           | None \<Rightarrow> Some (Return (Some (unknown_command c (hd args1))), st1)))
                       (\<lambda>(r, st2). Some (flow_of r, args1, st2))
                   else
                     (case Func (nodes st1 c) of
                        Some f \<Rightarrow>
                          (case A f c args1 st1 of (err, st2) \<Rightarrow> Some (Returning err, args1, st2))
                      | None \<Rightarrow> Some (Returning None, args1, st1)))))
       (deferred c)"

definition runsub ::
  "parser \<Rightarrow> (nat \<Rightarrow> action) \<Rightarrow> addr \<Rightarrow> string list \<Rightarrow> state \<Rightarrow> (outcome \<times> state) option" where
  "runsub P A c args st =
     (if length args < 1 then Some (Return (Some (sub_required st c)), st)
      else
        (case find (\<lambda>sc. Name (nodes st sc) = hd args) (subs (nodes st c)) of
           Some sc \<Rightarrow> Run P A sc (tl args) (set_parent st sc c)
         | None \<Rightarrow> Some (Return (Some (unknown_command c (hd args))), st)))"

text \<open>
  \<open>Run_body\<close> is the body of \<open>Run\<close> with \<open>runsub\<close> called by its name: what \<open>Run\<close> does
  before its deferred function runs.
\<close>

definition Run_body ::
  "parser \<Rightarrow> (nat \<Rightarrow> action) \<Rightarrow> addr \<Rightarrow> string list \<Rightarrow> state
    \<Rightarrow> (flow \<times> string list \<times> state) option" where
  "Run_body P A c args st =
     Option.bind (parse P st c args) (\<lambda>(pr, st1).
       case pr of
         Panic \<Rightarrow> Some (Panicking None, args, st1)
       | Ok (args1, perr) \<Rightarrow>
           (case perr of
              Some err \<Rightarrow> parse_failed st1 c args1 err
            | None \<Rightarrow>
                if SubCommands (nodes st1 c) \<noteq> None \<and> length args1 > 0
                then Option.bind (runsub P A c args1 st1) (\<lambda>(r, st2). Some (flow_of r, args1, st2))
                else
                  (case Func (nodes st1 c) of
                     Some f \<Rightarrow>
                       (case A f c args1 st1 of (err, st2) \<Rightarrow> Some (Returning err, args1, st2))
                   | None \<Rightarrow> Some (Returning None, args1, st1))))"

definition RunSubcommands ::
  "parser \<Rightarrow> (nat \<Rightarrow> action) \<Rightarrow> addr \<Rightarrow> string list \<Rightarrow> state \<Rightarrow> (outcome \<times> state) option" where
  "RunSubcommands P A c args st =
     Option.bind
       (Option.bind (parse P st c args) (\<lambda>(pr, st1).
          case pr of
            Panic \<Rightarrow> Some (Panicking None, args, st1)
          | Ok (args1, perr) \<Rightarrow>
              (case perr of
                 Some err \<Rightarrow> parse_failed st1 c args1 err
               | None \<Rightarrow>
                   Option.bind (runsub P A c args1 st1) (\<lambda>(r, st2). Some (flow_of r, args1, st2)))))
       (deferred c)"

declare command_path.simps [code]
declare stderr.simps [code]
declare onError_loop.simps [code]
declare Lookup.simps [code]
declare Run.simps [code]

subsection \<open>The parent chain as a list\<close>

text \<open>
  \<open>path_to_root h a as\<close>: following \<open>parent\<close> from node \<open>a\<close> visits the nodes \<open>as\<close>, in
  this order, and ends at a node without parent. It holds of no list when the chain
  is cyclic.
\<close>

inductive path_to_root :: "(addr \<Rightarrow> Command) \<Rightarrow> addr \<Rightarrow> addr list \<Rightarrow> bool"
  for h :: "addr \<Rightarrow> Command" where
  root: "parent (h a) = None \<Longrightarrow> path_to_root h a [a]"
| step: "parent (h a) = Some p \<Longrightarrow> path_to_root h p as \<Longrightarrow> path_to_root h a (a # as)"

code_pred path_to_root .

text \<open>The nodes a lookup for \<open>(cmd, name)\<close> stops at, and the nodes with a policy.\<close>

definition lookup_match :: "state \<Rightarrow> string \<Rightarrow> string \<Rightarrow> addr \<Rightarrow> bool" where
  "lookup_match st cmd name n =
     ((cmd = [] \<or> cmd = Name (nodes st n)) \<and> flags_Lookup st (Flags (nodes st n)) name \<noteq> None)"

definition has_policy :: "(addr \<Rightarrow> Command) \<Rightarrow> addr \<Rightarrow> bool" where
  "has_policy h n = (OnError (h n) \<noteq> None)"

section \<open>Example data\<close>

text \<open>
  \<open>cmd0\<close> is the zero value \<open>Command{}\<close>. \<open>example_parser\<close> is a small stand-in for
  the flags package: it accepts \<open>--name=value\<close> for the names the struct has,
  rejects any other token that starts with a dash, and stops at the first other token.
  \<open>example_actions\<close>: action 0 writes its arguments and succeeds, every other action fails.
\<close>

definition cmd0 :: Command where
  "cmd0 = \<lparr>parent = None, Name = [], Parameters = [], MinArgs = 0, MaxArgs = 0,
           Defaults = None, Flags = None, Func = None, SubCommands = None,
           Stderr = None, OnError = None\<rparr>"

fun example_parser :: parser where
  "example_parser fs [] = (fs, None, [])"
| "example_parser fs (a # as) =
     (if take 2 a = ''--'' \<and> CHR ''='' \<in> set a
      then
        let k = takeWhile (\<lambda>x. x \<noteq> CHR ''='') (drop 2 a);
            v = drop 1 (dropWhile (\<lambda>x. x \<noteq> CHR ''='') (drop 2 a))
        in if fs k \<noteq> None then example_parser (fs(k \<mapsto> VString v)) as
           else (fs, Some (''flag provided but not defined: -'' @ k), as)
      else if take 1 a = ''-'' \<and> length a > 1
      then (fs, Some (''flag provided but not defined: '' @ a), as)
      else (fs, None, a # as))"

definition example_actions :: "nat \<Rightarrow> action" where
  "example_actions f c args st =
     (if f = 0 then (None, st\<lparr>out := out st @ [Printf (Writer 9) (Join args '' '')]\<rparr>)
      else (Some (FuncError ''fatal error''), st))"

text \<open>
  The tree of the repository's tests: \<open>main\<close> (0, persistent flags) with the
  sub-commands \<open>bar\<close> (1, persistent flags, an action), \<open>foo\<close> (2, defaults, exactly
  one argument) and \<open>help\<close> (3); \<open>bar\<close> has the sub-command \<open>subbar\<close> (4, defaults).
\<close>

definition tree :: state where
  "tree = \<lparr>nodes = (\<lambda>a. cmd0)
      (0 := cmd0\<lparr>Name := ''main'', Flags := Some 0, SubCommands := Some [1, 2, 3],
                 Stderr := Some (Writer 0)\<rparr>,
       1 := cmd0\<lparr>Name := ''bar'', Flags := Some 1, Func := Some 0,
                 Parameters := ''WORD ...'', SubCommands := Some [4]\<rparr>,
       2 := cmd0\<lparr>Name := ''foo'', Defaults := Some 3, Func := Some 1,
                 MinArgs := 1, MaxArgs := 1\<rparr>,
       3 := cmd0\<lparr>Name := ''help'', Func := Some 0\<rparr>,
       4 := cmd0\<lparr>Name := ''subbar'', Defaults := Some 2, Func := Some 0\<rparr>),
     structs = (\<lambda>r. Map.empty)
      (0 := [''name'' \<mapsto> VString []],
       1 := [''name'' \<mapsto> VString [], ''value'' \<mapsto> VInt 17],
       2 := [''name'' \<mapsto> VString ''myname''],
       3 := [''n'' \<mapsto> VInt 42, ''name'' \<mapsto> VString []]),
     next_ref = 4,
     out = []\<rparr>"

text \<open>The state after \<open>main --name=foo bar --name=b subbar --name=sub\<close> has run on \<open>tree\<close>.\<close>

definition tree_run :: state where
  "tree_run = snd (the (Run example_parser example_actions 0
                 [''--name=foo'', ''bar'', ''--name=b'', ''subbar'', ''--name=sub''] tree))"

text \<open>A state with one command, and the command of the repository's TestArgs.\<close>

definition solo :: "Command \<Rightarrow> state" where
  "solo cm = \<lparr>nodes = (\<lambda>a. cm), structs = (\<lambda>r. Map.empty), next_ref = 0, out = []\<rparr>"

definition test_cmd :: Command where
  "test_cmd = cmd0\<lparr>Name := ''test'', MinArgs := 1, MaxArgs := 2\<rparr>"

text \<open>
  The tree with \<open>ContinueOnError\<close> set on \<open>main\<close> only, as in TestContinueOnError, and
  \<open>foo\<close> entered from \<open>main\<close>.
\<close>

definition tree_continue :: state where
  "tree_continue =
     set_parent (tree\<lparr>nodes := (nodes tree)(0 := (nodes tree 0)\<lparr>OnError := Some ContinueOnError\<rparr>)\<rparr>) 2 0"

text \<open>The tree with both \<open>Defaults\<close> and \<open>Flags\<close> set on \<open>foo\<close>.\<close>

definition tree_both :: state where
  "tree_both = tree\<lparr>nodes := (nodes tree)(2 := (nodes tree 2)\<lparr>Flags := Some 1\<rparr>)\<rparr>"

text \<open>
  A command with an action whose \<open>SubCommands\<close> is an empty slice that is not nil, and
  the tree with \<open>bar\<close> entered from \<open>main\<close>.
\<close>

definition tree_no_children :: state where
  "tree_no_children = solo (cmd0\<lparr>Name := ''cmd'', Func := Some 0, SubCommands := Some []\<rparr>)"

definition tree_bar :: state where
  "tree_bar = set_parent tree 1 0"

section \<open>The splitter: the strict policy and empty groups\<close>

lemma split_on_nonempty: "split_on d xs \<noteq> []"
  by (induction xs) (auto split: list.splits)

lemma split_on_glue:
  "d \<notin> set cur \<Longrightarrow>
   split_on d (cur @ xs) = (cur @ hd (split_on d xs)) # tl (split_on d xs)"
  using split_on_nonempty [of d xs] by (induction cur) auto

lemma split_on_no_delim: "d \<notin> set cur \<Longrightarrow> split_on d cur = [cur]"
  using split_on_glue [of d cur "[]"] by simp

text \<open>
  The invariant of the second loop: \<open>pre\<close> is what lies before \<open>start\<close>, \<open>cur\<close> the
  tokens of the group being read, none of them the delimiter.
\<close>

lemma group_loop_strict:
  "args = pre @ cur @ rest \<Longrightarrow> delim \<notin> set cur \<Longrightarrow>
   finish_groups args (group_loop args delim (length pre) (length pre + length cur) cmds rest)
     = cmds @ filter (\<lambda>g. g \<noteq> []) (split_on delim (cur @ rest))"
proof (induction rest arbitrary: pre cur cmds)
  case Nil
  then show ?case
    by (cases cur) (simp_all add: finish_groups_def split_on_no_delim del: split_on.simps)
next
  case (Cons a rest)
  show ?case
  proof (cases "a = delim")
    case True
    have args: "args = (pre @ cur @ [a]) @ [] @ rest" using Cons.prems(1) by simp
    have sl: "slice args (length pre) (length pre + length cur) = cur"
      using Cons.prems(1) by (simp add: slice_def)
    let ?cmds = "if cur \<noteq> [] then cmds @ [cur] else cmds"
    have step: "group_loop args delim (length pre) (length pre + length cur) cmds (a # rest)
        = group_loop args delim (length (pre @ cur @ [a]))
            (length (pre @ cur @ [a]) + length ([]::string list)) ?cmds rest"
      using True sl by simp
    have IH: "finish_groups args (group_loop args delim (length (pre @ cur @ [a]))
            (length (pre @ cur @ [a]) + length ([]::string list)) ?cmds rest)
          = ?cmds @ filter (\<lambda>g. g \<noteq> []) (split_on delim ([] @ rest))"
      by (rule Cons.IH) (use args in simp_all)
    have sp: "split_on delim (cur @ a # rest) = cur # split_on delim rest"
      using split_on_glue [OF Cons.prems(2), of "a # rest"] True by simp
    show ?thesis unfolding step IH sp by simp
  next
    case False
    have args: "args = pre @ (cur @ [a]) @ rest" using Cons.prems(1) by simp
    have nd: "delim \<notin> set (cur @ [a])" using False Cons.prems(2) by auto
    from Cons.IH [OF args nd, of cmds]
    show ?thesis using False by simp
  qed
qed

lemma group_loop_cmds_nonempty:
  "start \<le> i \<Longrightarrow> i + length rest = length args \<Longrightarrow> \<forall>g \<in> set cmds. g \<noteq> [] \<Longrightarrow>
   group_loop args delim start i cmds rest = (start', cmds') \<Longrightarrow>
   (\<forall>g \<in> set cmds'. g \<noteq> [])"
proof (induction rest arbitrary: start i cmds)
  case Nil
  then show ?case by simp
next
  case (Cons a rest)
  show ?case
  proof (cases "a = delim")
    case True
    have ne: "i > start \<Longrightarrow> slice args start i \<noteq> []"
      using Cons.prems(2) by (simp add: slice_def)
    have "\<forall>g \<in> set (if i > start then cmds @ [slice args start i] else cmds). g \<noteq> []"
      using Cons.prems(3) ne by auto
    moreover have "group_loop args delim (i + 1) (i + 1)
        (if i > start then cmds @ [slice args start i] else cmds) rest = (start', cmds')"
      using Cons.prems(4) True by simp
    ultimately show ?thesis
      using Cons.IH [of "i + 1" "i + 1"] Cons.prems(2) by simp
  next
    case False
    then have "group_loop args delim start (i + 1) cmds rest = (start', cmds')"
      using Cons.prems(4) by simp
    then show ?thesis
      using Cons.IH [of start "i + 1" cmds] Cons.prems by simp
  qed
qed

lemma SplitCommand_groups_nonempty: "g \<in> set (SplitCommand args delim options) \<Longrightarrow> g \<noteq> []"
proof -
  define args1 where
    "args1 = (if options \<noteq> StrictDelim then mark_words delim options [] args else args)"
  obtain start cmds where gl: "group_loop args1 delim 0 0 [] args1 = (start, cmds)"
    by (cases "group_loop args1 delim 0 0 [] args1")
  have ne: "\<forall>g \<in> set cmds. g \<noteq> []"
    using group_loop_cmds_nonempty [of 0 0 args1 args1 "[]" delim start cmds] gl by simp
  assume "g \<in> set (SplitCommand args delim options)"
  then have "g \<in> set (if start < length args1 then cmds @ [drop start args1] else cmds)"
    unfolding SplitCommand_def Let_def args1_def [symmetric] gl by simp
  then show ?thesis using ne by (auto split: if_splits)
qed

lemma SplitCommand_strict_spec:
  "SplitCommand args delim StrictDelim = spec_strict_groups delim args"
proof -
  have "finish_groups args (group_loop args delim (length ([]::string list))
          (length ([]::string list) + length ([]::string list)) [] args)
      = [] @ filter (\<lambda>g. g \<noteq> []) (split_on delim ([] @ args))"
    by (rule group_loop_strict) simp_all
  then show ?thesis
    by (simp add: SplitCommand_def spec_strict_groups_def finish_groups_def split: prod.splits)
qed

text \<open>The five cases of TestSplit.\<close>

lemma TestSplit_strict:
  "SplitCommand test_args '';'' StrictDelim = [[''a'', '';b'', ''c;'', ''d;e'', '';f;g;''], [''h'']]"
  by code_simp

lemma TestSplit_trailing:
  "SplitCommand test_args '';'' TrailingDelim = [[''a'', '';b'', ''c''], [''d;e'', '';f;g''], [''h'']]"
  by code_simp

lemma TestSplit_preceeding:
  "SplitCommand test_args '';'' PreceedingDelim
     = [[''a''], [''b'', ''c;'', ''d;e''], [''f;g;''], [''h'']]"
  by code_simp

lemma TestSplit_both:
  "SplitCommand test_args '';'' (PreceedingDelim OR TrailingDelim)
     = [[''a''], [''b'', ''c''], [''d;e''], [''f;g''], [''h'']]"
  by code_simp

lemma TestSplit_any:
  "SplitCommand test_args '';'' AnyDelim
     = [[''a''], [''b''], [''c''], [''d''], [''e''], [''f''], [''g''], [''h'']]"
  by code_simp

text \<open>
  C8. Under the strict policy \<open>SplitCommand\<close> returns exactly the groups obtained by
  cutting the sequence at the elements equal to the delimiter and dropping the empty
  groups, so a token that only contains the delimiter stays as it is; and whatever the
  options are, no group it returns is empty.
\<close>

theorem SplitCommand_strict_groups_and_no_empty_group:
  "SplitCommand args delim StrictDelim = spec_strict_groups delim args
   \<and> [] \<notin> set (SplitCommand args delim options)"
  using SplitCommand_strict_spec [of args delim]
    SplitCommand_groups_nonempty [of "[]" args delim options]
  by blast

theorem SplitCommand_strict_groups_and_no_empty_group_witness:
  "SplitCommand test_args '';'' StrictDelim = [[''a'', '';b'', ''c;'', ''d;e'', '';f;g;''], [''h'']]
   \<and> [] \<notin> set (SplitCommand test_args '';'' AnyDelim)"
  using SplitCommand_strict_groups_and_no_empty_group [of test_args "'';''" AnyDelim]
  by (simp add: spec_strict_groups_def test_args_def)

section \<open>The positional hint\<close>

lemma arg_loop_done: "\<not> i < n \<Longrightarrow> arg_loop i n b = b"
  by (simp add: arg_loop.simps)

lemma arg_loop_grows: "length b \<le> length (arg_loop i n b)"
proof (induction i n b rule: arg_loop.induct)
  case (1 i n b)
  show ?case
  proof (cases "i < n")
    case True
    then have "length (b @ '' arg'' @ fmt_d i) \<le> length (arg_loop i n b)"
      using "1.IH" by (simp add: arg_loop.simps [of i n b])
    then show ?thesis by simp
  next
    case False
    then show ?thesis by (simp add: arg_loop_done)
  qed
qed

lemma arg_loop_nonempty: "i < n \<Longrightarrow> arg_loop i n b \<noteq> []"
proof -
  assume lt: "i < n"
  have "length (b @ '' arg'' @ fmt_d i) \<le> length (arg_loop (i + 1) n (b @ '' arg'' @ fmt_d i))"
    by (rule arg_loop_grows)
  moreover have "arg_loop i n b = arg_loop (i + 1) n (b @ '' arg'' @ fmt_d i)"
    using lt by (simp add: arg_loop.simps [of i n b])
  ultimately show ?thesis by auto
qed

text \<open>
  Where \<open>parameters\<close> panics: no hint is given, \<open>MaxArgs\<close> is neither \<open>NoArgs\<close> nor 0,
  no argument is required, and \<open>MaxArgs\<close> is not below \<open>MinArgs\<close>.
\<close>

lemma parameters_panic_iff:
  "parameters c = Panic \<longleftrightarrow>
     Parameters c = [] \<and> MaxArgs c \<noteq> NoArgs \<and> MinArgs c \<le> 0
       \<and> MaxArgs c \<noteq> 0 \<and> MinArgs c \<le> MaxArgs c"
proof (cases "0 < MinArgs c")
  case True
  then have "arg_loop 0 (MinArgs c) [] \<noteq> []" by (rule arg_loop_nonempty)
  then show ?thesis using True
    by (auto simp add: parameters_def Let_def Suc_le_eq)
next
  case False
  then have "arg_loop 0 (MinArgs c) [] = []" by (rule arg_loop_done)
  then show ?thesis using False
    by (auto simp add: parameters_def Let_def NoArgs_def)
qed

text \<open>
  C9. The claim: for a node without a \<open>Parameters\<close> hint whose \<open>MaxArgs\<close> is not
  \<open>NoArgs\<close>, generating the placeholder yields a string for every \<open>MinArgs \<ge> 0\<close> and
  \<open>MaxArgs\<close>, also for \<open>MinArgs = 0\<close> with a positive \<open>MaxArgs\<close>. The code panics there:
  the builder is empty and \<open>parameters\<close> slices it from index 1.
\<close>

theorem parameters_panics_without_required_args:
  "parameters (cmd0\<lparr>Name := ''list'', MinArgs := 0, MaxArgs := 1\<rparr>) = Panic"
  by (simp add: parameters_panic_iff cmd0_def NoArgs_def)

section \<open>Walking the parent chain\<close>


lemma stderr_set: "Stderr (h a) = Some w \<Longrightarrow> stderr h (Some a) = Some w"
  by (subst stderr.simps) simp

lemma stderr_unset: "Stderr (h a) = None \<Longrightarrow> stderr h (Some a) = stderr h (parent (h a))"
  by (subst stderr.simps) simp

lemma stderr_nil: "stderr h None = Some OsStderr"
  by (subst stderr.simps) simp

lemma stderr_path:
  "path_to_root h a as \<Longrightarrow>
   stderr h (Some a) =
     Some (case find (\<lambda>n. Stderr (h n) \<noteq> None) as of
             Some n \<Rightarrow> the (Stderr (h n)) | None \<Rightarrow> OsStderr)"
proof (induction rule: path_to_root.induct)
  case (root a)
  then show ?case
    by (cases "Stderr (h a)") (simp_all add: stderr_set stderr_unset stderr_nil)
next
  case (step a p as)
  then show ?case
    by (cases "Stderr (h a)") (simp_all add: stderr_set stderr_unset)
qed

lemma onError_loop_set: "OnError (h a) = Some f \<Longrightarrow> onError_loop h (Some a) = Some (Some f)"
  by (subst onError_loop.simps) simp

lemma onError_loop_unset:
  "OnError (h a) = None \<Longrightarrow> onError_loop h (Some a) = onError_loop h (parent (h a))"
  by (subst onError_loop.simps) simp

lemma onError_loop_nil: "onError_loop h None = Some None"
  by (subst onError_loop.simps) simp

lemma onError_loop_path:
  "path_to_root h a as \<Longrightarrow>
   onError_loop h (Some a) =
     Some (case find (has_policy h) as of Some n \<Rightarrow> OnError (h n) | None \<Rightarrow> None)"
proof (induction rule: path_to_root.induct)
  case (root a)
  then show ?case
    by (cases "OnError (h a)")
      (simp_all add: onError_loop_set onError_loop_unset onError_loop_nil has_policy_def)
next
  case (step a p as)
  then show ?case
    by (cases "OnError (h a)")
      (simp_all add: onError_loop_set onError_loop_unset has_policy_def)
qed

lemma command_path_root: "parent (h a) = None \<Longrightarrow> command_path h a = Some (Name (h a))"
  by (subst command_path.simps) simp

lemma command_path_step:
  "parent (h a) = Some p \<Longrightarrow>
   command_path h a = Option.bind (command_path h p) (\<lambda>s. Some (s @ '' '' @ Name (h a)))"
  by (subst command_path.simps) simp

lemma Join_snoc: "xs \<noteq> [] \<Longrightarrow> Join (xs @ [x]) sep = Join xs sep @ sep @ x"
  by (induction xs sep rule: Join.induct) simp_all

lemma path_to_root_nonempty: "path_to_root h a as \<Longrightarrow> as \<noteq> []"
  by (induction rule: path_to_root.induct) simp_all

lemma command_path_path:
  "path_to_root h a as \<Longrightarrow>
   command_path h a = Some (Join (map (\<lambda>n. Name (h n)) (rev as)) '' '')"
proof (induction rule: path_to_root.induct)
  case (root a)
  then show ?case by (simp add: command_path_root)
next
  case (step a p as)
  then show ?case
    using path_to_root_nonempty [of h p as]
    by (simp add: command_path_step Join_snoc)
qed

lemma Lookup_nil: "Lookup st None cmd name = Some None"
  by (subst Lookup.simps) simp

lemma Lookup_hit:
  "lookup_match st cmd name a \<Longrightarrow>
   Lookup st (Some a) cmd name = Some (flags_Lookup st (Flags (nodes st a)) name)"
  by (subst Lookup.simps) (auto simp add: lookup_match_def)

lemma Lookup_miss:
  "\<not> lookup_match st cmd name a \<Longrightarrow>
   Lookup st (Some a) cmd name = Lookup st (parent (nodes st a)) cmd name"
  by (subst Lookup.simps) (auto simp add: lookup_match_def)

lemma Lookup_path:
  "path_to_root (nodes st) a as \<Longrightarrow>
   Lookup st (Some a) cmd name =
     Some (case find (lookup_match st cmd name) as of
             Some n \<Rightarrow> flags_Lookup st (Flags (nodes st n)) name | None \<Rightarrow> None)"
proof (induction rule: path_to_root.induct)
  case (root a)
  then show ?case
    by (cases "lookup_match st cmd name a") (simp_all add: Lookup_hit Lookup_miss Lookup_nil)
next
  case (step a p as)
  then show ?case
    by (cases "lookup_match st cmd name a") (simp_all add: Lookup_hit Lookup_miss)
qed

section \<open>Lookup\<close>

lemma find_skip_prefix:
  "\<forall>n \<in> set pre. \<not> Q n \<Longrightarrow> Q b \<Longrightarrow> find Q (pre @ b # post) = Some b"
  by (induction pre) simp_all

text \<open>
  C5. On a chain that reaches the root, \<open>Lookup\<close> returns the value of the field at the
  first node, from the node itself upward, whose name matches the owner name (any node
  for the empty owner name) and whose option struct defines the field. So a lookup that
  names an ancestor returns that ancestor's value when no node below it on the chain
  carries the same name, whatever the node itself binds; a node where the field is
  missing does not stop the search; and when no node matches the result is nil.
\<close>

theorem Lookup_first_match_on_chain:
  assumes "path_to_root (nodes st) a as"
  shows "Lookup st (Some a) cmd name =
           Some (case find (lookup_match st cmd name) as of
                   Some n \<Rightarrow> flags_Lookup st (Flags (nodes st n)) name | None \<Rightarrow> None)
         \<and> (\<forall>pre b post. as = pre @ b # post \<and> cmd \<noteq> [] \<and> Name (nodes st b) = cmd
               \<and> (\<forall>n \<in> set pre. Name (nodes st n) \<noteq> cmd)
               \<and> flags_Lookup st (Flags (nodes st b)) name \<noteq> None
              \<longrightarrow> Lookup st (Some a) cmd name = Some (flags_Lookup st (Flags (nodes st b)) name))
         \<and> (flags_Lookup st (Flags (nodes st a)) name = None
              \<longrightarrow> Lookup st (Some a) cmd name = Lookup st (parent (nodes st a)) cmd name)
         \<and> ((\<forall>n \<in> set as. \<not> lookup_match st cmd name n)
              \<longrightarrow> Lookup st (Some a) cmd name = Some None)"
proof (intro conjI allI impI)
  show first: "Lookup st (Some a) cmd name =
           Some (case find (lookup_match st cmd name) as of
                   Some n \<Rightarrow> flags_Lookup st (Flags (nodes st n)) name | None \<Rightarrow> None)"
    using assms by (rule Lookup_path)
  {
    fix pre b post
    assume h: "as = pre @ b # post \<and> cmd \<noteq> [] \<and> Name (nodes st b) = cmd
               \<and> (\<forall>n \<in> set pre. Name (nodes st n) \<noteq> cmd)
               \<and> flags_Lookup st (Flags (nodes st b)) name \<noteq> None"
    then have "\<forall>n \<in> set pre. \<not> lookup_match st cmd name n" and "lookup_match st cmd name b"
      by (auto simp add: lookup_match_def)
    then have "find (lookup_match st cmd name) (pre @ b # post) = Some b"
      by (rule find_skip_prefix)
    then show "Lookup st (Some a) cmd name = Some (flags_Lookup st (Flags (nodes st b)) name)"
      using first h by simp
  }
  {
    assume "flags_Lookup st (Flags (nodes st a)) name = None"
    then have "\<not> lookup_match st cmd name a" by (simp add: lookup_match_def)
    then show "Lookup st (Some a) cmd name = Lookup st (parent (nodes st a)) cmd name"
      by (rule Lookup_miss)
  }
  {
    assume "\<forall>n \<in> set as. \<not> lookup_match st cmd name n"
    then have "find (lookup_match st cmd name) as = None" by (simp add: find_None_iff)
    then show "Lookup st (Some a) cmd name = Some None" using first by simp
  }
qed

lemma tree_run_path: "path_to_root (nodes tree_run) 4 [4, 1, 0]"
  apply (rule path_to_root.step [where p = 1])
   apply code_simp
  apply (rule path_to_root.step [where p = 0])
   apply code_simp 
  apply (rule path_to_root.root)
  apply code_simp
  done

theorem Lookup_first_match_on_chain_witness:
  "path_to_root (nodes tree_run) 4 [4, 1, 0]
   \<and> Lookup tree_run (Some 4) [] ''name'' = Some (Some (VString ''sub''))
   \<and> Lookup tree_run (Some 4) ''main'' ''name'' = Some (Some (VString ''foo''))
   \<and> Lookup tree_run (Some 4) ''bar'' ''name'' = Some (Some (VString ''b''))
   \<and> Lookup tree_run (Some 4) [] ''value'' = Some (Some (VInt 17))
   \<and> Lookup tree_run (Some 4) ''foo'' ''name'' = Some None
   \<and> Lookup tree_run (Some 4) [] ''unknown'' = Some None"
proof -
  have p: "path_to_root (nodes tree_run) 4 [4, 1, 0]" by (rule tree_run_path)
  have m: "map (\<lambda>n. (Name (nodes tree_run n), flags_Lookup tree_run (Flags (nodes tree_run n)) ''name'',
             flags_Lookup tree_run (Flags (nodes tree_run n)) ''value'',
             flags_Lookup tree_run (Flags (nodes tree_run n)) ''unknown'')) [4, 1, 0]
      = [(''subbar'', Some (VString ''sub''), None, None),
         (''bar'', Some (VString ''b''), Some (VInt 17), None),
         (''main'', Some (VString ''foo''), None, None)]"
    by code_simp
  show ?thesis
    using p m Lookup_first_match_on_chain [OF p, of "[]" "''name''"]
      Lookup_first_match_on_chain [OF p, of "''main''" "''name''"]
      Lookup_first_match_on_chain [OF p, of "''bar''" "''name''"]
      Lookup_first_match_on_chain [OF p, of "[]" "''value''"]
      Lookup_first_match_on_chain [OF p, of "''foo''" "''name''"]
      Lookup_first_match_on_chain [OF p, of "[]" "''unknown''"]
    by (simp add: lookup_match_def)
qed

section \<open>parse\<close>

lemma parameters_Stderr [simp]: "parameters (cm\<lparr>Stderr := w\<rparr>) = parameters cm"
  by (simp add: parameters_def)

lemma count_args_Stderr [simp]: "count_args c (cm\<lparr>Stderr := w\<rparr>) args = count_args c cm args"
  by (simp add: count_args_def)

lemma parameters_Flags [simp]: "parameters (cm\<lparr>Flags := w\<rparr>) = parameters cm"
  by (simp add: parameters_def)

lemma count_args_Flags [simp]: "count_args c (cm\<lparr>Flags := w\<rparr>) args = count_args c cm args"
  by (simp add: count_args_def)

lemma set_Stderr_restore:
  "set_Stderr (set_Stderr st c w) c (Stderr (nodes st c)) = st"
  by (simp add: set_Stderr_def)

lemma register_defaults:
  "Defaults (nodes st c) = Some d \<Longrightarrow> command_path (nodes st) c = Some p \<Longrightarrow>
   register st c =
     Some (Some (next_ref st),
           set_Flags (st\<lparr>structs := (structs st)(next_ref st := structs st d),
                        next_ref := Suc (next_ref st)\<rparr>) c (Some (next_ref st)))"
  by (simp add: register_def RegisterNew_def Let_def)

lemma register_flags:
  "Defaults (nodes st c) = None \<Longrightarrow> Flags (nodes st c) = Some r \<Longrightarrow>
   command_path (nodes st) c = Some p \<Longrightarrow> register st c = Some (Some r, st)"
  by (simp add: register_def)

lemma register_none:
  "Defaults (nodes st c) = None \<Longrightarrow> Flags (nodes st c) = None \<Longrightarrow>
   register st c = Some (None, st)"
  by (simp add: register_def)

text \<open>What \<open>register\<close> leaves alone.\<close>

lemma register_frame:
  "register st c = Some (flagset, st1) \<Longrightarrow>
   out st1 = out st
   \<and> (\<forall>a. parent (nodes st1 a) = parent (nodes st a) \<and> Name (nodes st1 a) = Name (nodes st a)
          \<and> MinArgs (nodes st1 a) = MinArgs (nodes st a) \<and> MaxArgs (nodes st1 a) = MaxArgs (nodes st a)
          \<and> Parameters (nodes st1 a) = Parameters (nodes st a)
          \<and> Defaults (nodes st1 a) = Defaults (nodes st a)
          \<and> Func (nodes st1 a) = Func (nodes st a)
          \<and> SubCommands (nodes st1 a) = SubCommands (nodes st a)
          \<and> Stderr (nodes st1 a) = Stderr (nodes st a)
          \<and> OnError (nodes st1 a) = OnError (nodes st a))"
  by (auto simp add: register_def RegisterNew_def Let_def set_Flags_def
      split: option.splits Option.bind_splits)

lemma count_args_cong:
  "MinArgs cm = MinArgs cm' \<Longrightarrow> MaxArgs cm = MaxArgs cm' \<Longrightarrow>
   count_args c cm args = count_args c cm' args"
  by (simp add: count_args_def)

lemma nodes_set_Stderr [simp]:
  "nodes (set_Stderr st c w) a = (if a = c then (nodes st c)\<lparr>Stderr := w\<rparr> else nodes st a)"
  by (simp add: set_Stderr_def)

lemma parse_no_set:
  "register st c = Some (None, st1) \<Longrightarrow>
   parse P st c args = Some (Ok (args, count_args c (nodes st1 c) args), st1)"
  by (simp add: parse_def Let_def set_Stderr_restore)

lemma parse_set_ok:
  "register st c = Some (Some r, st1) \<Longrightarrow> P (structs st1 r) args = (fs, None, rest) \<Longrightarrow>
   parse P st c args =
     Some (Ok (rest, count_args c (nodes st1 c) rest), st1\<lparr>structs := (structs st1)(r := fs)\<rparr>)"
  by (simp add: parse_def Let_def stderr_set set_Stderr_def)

lemma parse_set_error:
  "register st c = Some (Some r, st1) \<Longrightarrow> P (structs st1 r) args = (fs, Some m, rest) \<Longrightarrow>
   parameters (nodes st1 c) = Ok ps \<Longrightarrow>
   parse P st c args =
     Some (Ok (args, Some (UsageError c (Some m))),
           st1\<lparr>structs := (structs st1)(r := fs), out := out st1 @ [FlagsHelp ParseBuffer c]\<rparr>)"
  by (simp add: parse_def Let_def stderr_set set_Stderr_def)

lemma parse_set_panic:
  "register st c = Some (Some r, st1) \<Longrightarrow> P (structs st1 r) args = (fs, Some m, rest) \<Longrightarrow>
   parameters (nodes st1 c) = Panic \<Longrightarrow>
   parse P st c args = Some (Panic, st1\<lparr>structs := (structs st1)(r := fs)\<rparr>)"
  by (simp add: parse_def Let_def stderr_set set_Stderr_def)

lemma command_path_Flags_upd_aux:
  "command_path h c = Some p \<Longrightarrow>
   (\<forall>h' :: addr \<Rightarrow> Command. (\<forall>a. parent (h' a) = parent (h a) \<and> Name (h' a) = Name (h a))
      \<longrightarrow> command_path h' c = Some p)"
proof (induction rule: command_path.raw_induct [rotated 1, consumes 1])
  case (1 command_path' h c p)
  show ?case
  proof (intro allI impI)
    fix h' :: "addr \<Rightarrow> Command"
    assume same: "\<forall>a. parent (h' a) = parent (h a) \<and> Name (h' a) = Name (h a)"
    show "command_path h' c = Some p"
    proof (cases "parent (h c)")
      case None
      then show ?thesis using 1(2) same by (simp add: command_path_root)
    next
      case (Some q)
      then obtain s where s: "command_path' h q = Some s" and p: "p = s @ '' '' @ Name (h c)"
        using 1(2) by (auto split: Option.bind_splits)
      from 1(1) [OF s] same have "command_path h' q = Some s" by blast
      then show ?thesis using Some same p by (simp add: command_path_step)
    qed
  qed
qed

lemma command_path_same_names:
  "command_path h c = Some p \<Longrightarrow>
   (\<And>a. parent (h' a) = parent (h a) \<and> Name (h' a) = Name (h a)) \<Longrightarrow>
   command_path h' c = Some p"
  using command_path_Flags_upd_aux by blast

lemma Error_usage:
  "command_path (nodes st) c = Some path \<Longrightarrow>
   Error st (UsageError c (Some m)) = Some (path @ '': '' @ m)"
  by (simp add: Error_def)

text \<open>
  The text of a \<open>UsageError\<close> on a chain that reaches the root: the names from the root
  down to the node, joined by spaces, a colon and the message.
\<close>

lemma Error_usage_path:
  "path_to_root (nodes s) c as \<Longrightarrow>
   Error s (UsageError c (Some m))
     = Some (Join (map (\<lambda>n. Name (nodes s n)) (rev as)) '' '' @ '': '' @ m)"
  by (simp add: Error_usage command_path_path)

text \<open>\<open>parse\<close> changes no name and no parent, so the path of every node stays.\<close>

lemma parse_keeps_names:
  "parse P st c args = Some (res, st') \<Longrightarrow>
   parent (nodes st' a) = parent (nodes st a) \<and> Name (nodes st' a) = Name (nodes st a)"
  by (auto simp add: parse_def Let_def register_def RegisterNew_def set_Flags_def set_Stderr_def
      split: Option.bind_splits option.splits prod.splits result.splits if_splits)

lemma parse_keeps_path:
  "parse P st c args = Some (res, st') \<Longrightarrow> command_path (nodes st) a = Some p \<Longrightarrow>
   command_path (nodes st') a = Some p"
  by (erule command_path_same_names) (simp add: parse_keeps_names)

text \<open>\<open>%d\<close> on some numbers.\<close>

lemma fmt_d_digit: "fmt_d 1 = ''1''" "fmt_d 2 = ''2''"
  by (simp_all add: fmt_d_def itoa_nat.simps)

lemma fmt_d_examples:
  "fmt_d 0 = ''0''" "fmt_d 7 = ''7''" "fmt_d 10 = ''10''" "fmt_d 42 = ''42''"
  "fmt_d 105 = ''105''" "fmt_d (- 3) = ''-3''"
  by code_simp+

text \<open>
  C2. Once the options are parsed, \<open>parse\<close> returns the remaining arguments and the
  verdict of the count checks, in this order: with \<open>MaxArgs = NoArgs\<close> any argument is
  refused with "takes no arguments"; then fewer than \<open>MinArgs\<close> arguments are refused
  with "requires at least <MinArgs> arguments"; then more than a positive \<open>MaxArgs\<close> with
  "takes no more than <MaxArgs> arguments"; otherwise the count passes. Each failure is a
  \<open>UsageError\<close> of the node, whose text, in the state \<open>parse\<close> leaves, is the command path
  (the names from the root down to the node, joined by spaces), a colon and the message.
\<close>

theorem parse_validates_argument_count:
  assumes reg: "register st c = Some (flagset, st1)"
    and opts: "case flagset of
                 None \<Rightarrow> rest = args
               | Some r \<Rightarrow> fst (snd (P (structs st1 r) args)) = None
                            \<and> snd (snd (P (structs st1 r) args)) = rest"
  shows "(\<exists>st2. parse P st c args = Some (Ok (rest, count_args c (nodes st c) rest), st2)
            \<and> (\<forall>as m. path_to_root (nodes st) c as \<longrightarrow>
                  Error st2 (UsageError c (Some m))
                    = Some (Join (map (\<lambda>n. Name (nodes st n)) (rev as)) '' '' @ '': '' @ m)))
    \<and> (MaxArgs (nodes st c) = NoArgs \<and> rest \<noteq> [] \<longrightarrow>
         count_args c (nodes st c) rest = Some (UsageError c (Some ''takes no arguments'')))
    \<and> (\<not> (MaxArgs (nodes st c) = NoArgs \<and> rest \<noteq> []) \<and> int (length rest) < MinArgs (nodes st c) \<longrightarrow>
         count_args c (nodes st c) rest =
           Some (UsageError c (Some (''requires at least '' @ fmt_d (MinArgs (nodes st c)) @ '' arguments''))))
    \<and> (\<not> (MaxArgs (nodes st c) = NoArgs \<and> rest \<noteq> []) \<and> \<not> int (length rest) < MinArgs (nodes st c)
          \<and> MaxArgs (nodes st c) > 0 \<and> int (length rest) > MaxArgs (nodes st c) \<longrightarrow>
         count_args c (nodes st c) rest =
           Some (UsageError c (Some (''takes no more than '' @ fmt_d (MaxArgs (nodes st c)) @ '' arguments''))))
    \<and> (\<not> (MaxArgs (nodes st c) = NoArgs \<and> rest \<noteq> []) \<and> \<not> int (length rest) < MinArgs (nodes st c)
          \<and> \<not> (MaxArgs (nodes st c) > 0 \<and> int (length rest) > MaxArgs (nodes st c)) \<longrightarrow>
         count_args c (nodes st c) rest = None)
    \<and> (\<forall>s as m. path_to_root (nodes s) c as \<longrightarrow>
          Error s (UsageError c (Some m))
            = Some (Join (map (\<lambda>n. Name (nodes s n)) (rev as)) '' '' @ '': '' @ m))"
proof -
  have same: "count_args c (nodes st1 c) rest = count_args c (nodes st c) rest"
    using register_frame [OF reg] by (intro count_args_cong) simp_all
  have ret: "\<exists>st2. parse P st c args = Some (Ok (rest, count_args c (nodes st c) rest), st2)"
  proof (cases flagset)
    case None
    then show ?thesis using parse_no_set [of st c st1 P args] reg opts same by simp
  next
    case (Some r)
    then obtain fs where "P (structs st1 r) args = (fs, None, rest)"
      using opts by (cases "P (structs st1 r) args") auto
    then show ?thesis using parse_set_ok [of st c r st1 P args fs rest] reg Some same by simp
  qed
  then obtain st2 where p: "parse P st c args = Some (Ok (rest, count_args c (nodes st c) rest), st2)"
    by blast
  have txt2: "Error st2 (UsageError c (Some m))
        = Some (Join (map (\<lambda>n. Name (nodes st n)) (rev as)) '' '' @ '': '' @ m)"
    if "path_to_root (nodes st) c as" for as m
    using parse_keeps_path [OF p command_path_path [OF that]] by (simp add: Error_usage)
  have first: "\<exists>st2. parse P st c args = Some (Ok (rest, count_args c (nodes st c) rest), st2)
            \<and> (\<forall>as m. path_to_root (nodes st) c as \<longrightarrow>
                  Error st2 (UsageError c (Some m))
                    = Some (Join (map (\<lambda>n. Name (nodes st n)) (rev as)) '' '' @ '': '' @ m))"
    using p txt2 by blast
  show ?thesis
    using first by (simp add: count_args_def Error_usage_path)
qed

theorem parse_validates_argument_count_witness:
  "register (solo test_cmd) 0 = Some (None, solo test_cmd)
   \<and> map_option fst (parse example_parser (solo test_cmd) 0 [''1'', ''2'', ''3''])
       = Some (Ok ([''1'', ''2'', ''3''], Some (UsageError 0 (Some ''takes no more than 2 arguments''))))
   \<and> map_option fst (parse example_parser (solo test_cmd) 0 [])
       = Some (Ok ([], Some (UsageError 0 (Some ''requires at least 1 arguments''))))
   \<and> map_option fst (parse example_parser (solo (test_cmd\<lparr>MinArgs := 0, MaxArgs := NoArgs\<rparr>)) 0 [''arg''])
       = Some (Ok ([''arg''], Some (UsageError 0 (Some ''takes no arguments''))))
   \<and> map_option fst (parse example_parser (solo test_cmd) 0 [''1'', ''2''])
       = Some (Ok ([''1'', ''2''], None))
   \<and> Error (solo test_cmd) (UsageError 0 (Some ''requires at least 1 arguments''))
       = Some ''test: requires at least 1 arguments''
   \<and> map_option fst (register tree 2) = Some (Some 4)
   \<and> map_option fst (parse example_parser tree 2 [''--name=x''])
       = Some (Ok ([], Some (UsageError 2 (Some ''requires at least 1 arguments''))))
   \<and> map_option fst (register tree_continue 2) = Some (Some 4)
   \<and> path_to_root (nodes tree_continue) 2 [2, 0]
   \<and> map_option fst (parse example_parser tree_continue 2 [''a'', ''b''])
       = Some (Ok ([''a'', ''b''], Some (UsageError 2 (Some ''takes no more than 1 arguments''))))
   \<and> Error (snd (the (parse example_parser tree_continue 2 [''a'', ''b''])))
         (UsageError 2 (Some ''takes no more than 1 arguments''))
       = Some ''main foo: takes no more than 1 arguments''"
proof -
  let ?tc = "snd (the (register tree_continue 2))"
  have rc0: "map_option fst (register tree_continue 2) = Some (Some 4)" by code_simp
  then have rc: "register tree_continue 2 = Some (Some 4, ?tc)"
    by (cases "register tree_continue 2") auto
  have oc: "case Some (4::nat) of None \<Rightarrow> [''a'', ''b''] = [''a'', ''b'']
      | Some r \<Rightarrow> fst (snd (example_parser (structs ?tc r) [''a'', ''b''])) = None
                 \<and> snd (snd (example_parser (structs ?tc r) [''a'', ''b''])) = [''a'', ''b'']"
    by code_simp
  have pc: "path_to_root (nodes tree_continue) 2 [2, 0]"
    apply (rule path_to_root.step [where p = 0])
     apply code_simp
    apply (rule path_to_root.root)
    apply code_simp
    done
  have mc: "MinArgs (nodes tree_continue 2) = 1" "MaxArgs (nodes tree_continue 2) = 1"
    by code_simp+
  have jc: "Join (map (\<lambda>n. Name (nodes tree_continue n)) (rev [2, 0])) '' '' = ''main foo''"
    by code_simp
  from parse_validates_argument_count [of tree_continue 2 "Some 4" ?tc "[''a'', ''b'']"
      "[''a'', ''b'']" example_parser, OF rc oc, THEN conjunct1]
  obtain sc2 where
    c1: "parse example_parser tree_continue 2 [''a'', ''b'']
          = Some (Ok ([''a'', ''b''], count_args 2 (nodes tree_continue 2) [''a'', ''b'']), sc2)"
    and c2: "\<forall>as m. path_to_root (nodes tree_continue) 2 as \<longrightarrow>
               Error sc2 (UsageError 2 (Some m))
                 = Some (Join (map (\<lambda>n. Name (nodes tree_continue n)) (rev as)) '' '' @ '': '' @ m)"
    by (elim exE conjE)
  have c3: "count_args 2 (nodes tree_continue 2) [''a'', ''b'']
      = Some (UsageError 2 (Some ''takes no more than 1 arguments''))"
    using parse_validates_argument_count [of tree_continue 2 "Some 4" ?tc "[''a'', ''b'']"
      "[''a'', ''b'']" example_parser, OF rc oc] mc
    by (simp add: NoArgs_def fmt_d_digit)
  have c4: "sc2 = snd (the (parse example_parser tree_continue 2 [''a'', ''b'']))"
    using c1 by simp
  have child: "map_option fst (parse example_parser tree_continue 2 [''a'', ''b''])
       = Some (Ok ([''a'', ''b''], Some (UsageError 2 (Some ''takes no more than 1 arguments''))))
     \<and> Error (snd (the (parse example_parser tree_continue 2 [''a'', ''b''])))
         (UsageError 2 (Some ''takes no more than 1 arguments''))
       = Some ''main foo: takes no more than 1 arguments''"
    using c1 c2 [rule_format, OF pc, of "''takes no more than 1 arguments''"] c3 jc
    unfolding c4 [symmetric] by simp
  let ?P = example_parser
  let ?st1 = "snd (the (register tree 2))"
  have r0: "map_option fst (register tree 2) = Some (Some 4)" by code_simp
  then have r3: "register tree 2 = Some (Some 4, ?st1)"
    by (cases "register tree 2") auto
  have o3: "case Some (4::nat) of None \<Rightarrow> [] = [''--name=x'']
      | Some r \<Rightarrow> fst (snd (?P (structs ?st1 r) [''--name=x''])) = None
                 \<and> snd (snd (?P (structs ?st1 r) [''--name=x''])) = []"
    by code_simp
  have m: "MinArgs (nodes tree 2) = 1" "MaxArgs (nodes tree 2) = 1" by code_simp+
  have flagged: "map_option fst (parse ?P tree 2 [''--name=x''])
       = Some (Ok ([], Some (UsageError 2 (Some ''requires at least 1 arguments''))))"
    using parse_validates_argument_count [of tree 2 "Some 4" ?st1 "[]" "[''--name=x'']" ?P,
        OF r3 o3] m
    by (auto simp add: fmt_d_digit NoArgs_def)
  have reg: "register (solo cm) 0 = Some (None, solo cm)"
    if "Defaults cm = None" "Flags cm = None" for cm
    using that by (simp add: register_def solo_def)
  have r1: "register (solo test_cmd) 0 = Some (None, solo test_cmd)"
    by (rule reg) (simp_all add: test_cmd_def cmd0_def)
  have r2: "register (solo (test_cmd\<lparr>MinArgs := 0, MaxArgs := NoArgs\<rparr>)) 0
              = Some (None, solo (test_cmd\<lparr>MinArgs := 0, MaxArgs := NoArgs\<rparr>))"
    by (rule reg) (simp_all add: test_cmd_def cmd0_def)
  have path: "path_to_root (nodes (solo test_cmd)) 0 [0]"
    by (rule path_to_root.root) (simp add: solo_def test_cmd_def cmd0_def)
  have nm: "Name (nodes (solo test_cmd) 0) = ''test''"
    by (simp add: solo_def test_cmd_def cmd0_def)
  have vals: "nodes (solo cm) 0 = cm" for cm by (simp add: solo_def)
  have t: "MinArgs test_cmd = 1" "MaxArgs test_cmd = 2" by (simp_all add: test_cmd_def)
  show ?thesis
    using r1 path nm r0 flagged rc0 pc child
      parse_validates_argument_count [OF r1, of "[''1'', ''2'', ''3'']" "[''1'', ''2'', ''3'']" example_parser]
      parse_validates_argument_count [OF r1, of "[]" "[]" example_parser]
      parse_validates_argument_count [OF r2, of "[''arg'']" "[''arg'']" example_parser]
      parse_validates_argument_count [OF r1, of "[''1'', ''2'']" "[''1'', ''2'']" example_parser]
    by (auto simp add: vals t fmt_d_digit NoArgs_def)
qed

section \<open>Run\<close>

lemma run_deferred_nil: "run_deferred st c args None = Some (Return None, st)"
  by (simp add: run_deferred_def onError_def)

lemma Run_eq_body: "Run P A c args st = Option.bind (Run_body P A c args st) (deferred c)"
  by (subst Run.simps, unfold Run_body_def runsub_def, rule refl)

lemma Run_body_parse_ok:
  "parse P st c args = Some (Ok (args1, None), st1) \<Longrightarrow>
   Run_body P A c args st =
     (if SubCommands (nodes st1 c) \<noteq> None \<and> args1 \<noteq> []
      then Option.bind (runsub P A c args1 st1) (\<lambda>(r, st2). Some (flow_of r, args1, st2))
      else (case Func (nodes st1 c) of
              Some f \<Rightarrow> (case A f c args1 st1 of (err, st2) \<Rightarrow> Some (Returning err, args1, st2))
            | None \<Rightarrow> Some (Returning None, args1, st1)))"
  by (simp add: Run_body_def)

lemma Run_body_parse_failed:
  "parse P st c args = Some (Ok (args1, Some e), st1) \<Longrightarrow>
   Run_body P A c args st = parse_failed st1 c args1 e"
  by (simp add: Run_body_def)

lemma runsub_child:
  "find (\<lambda>sc. Name (nodes st sc) = tok) (subs (nodes st c)) = Some sc \<Longrightarrow>
   runsub P A c (tok # rest) st = Run P A sc rest (set_parent st sc c)"
  by (simp add: runsub_def)

lemma runsub_unknown:
  "find (\<lambda>sc. Name (nodes st sc) = tok) (subs (nodes st c)) = None \<Longrightarrow>
   runsub P A c (tok # rest) st = Some (Return (Some (unknown_command c tok)), st)"
  by (simp add: runsub_def)

lemma runsub_nil: "runsub P A c [] st = Some (Return (Some (sub_required st c)), st)"
  by (simp add: runsub_def)

lemma deferred_returning: "deferred c (Returning err, args, st) = run_deferred st c args err"
  by (simp add: deferred_def)

lemma find_name_None:
  "tok \<notin> (\<lambda>sc. Name (nodes st sc)) ` set scs \<Longrightarrow> find (\<lambda>sc. Name (nodes st sc) = tok) scs = None"
  by (auto simp add: find_None_iff)

lemma find_name_Some:
  "tok \<in> (\<lambda>sc. Name (nodes st sc)) ` set scs \<Longrightarrow>
   \<exists>sc \<in> set scs. Name (nodes st sc) = tok \<and> find (\<lambda>sc. Name (nodes st sc) = tok) scs = Some sc"
  by (induction scs) auto

lemma RunSubcommands_parse_ok:
  "parse P st c args = Some (Ok (args1, None), st1) \<Longrightarrow>
   RunSubcommands P A c args st =
     Option.bind (runsub P A c args1 st1) (\<lambda>(r, st2). deferred c (flow_of r, args1, st2))"
  by (auto simp add: RunSubcommands_def split: Option.bind_splits)

lemma parse_error_usage:
  "parse P st c args = Some (Ok (args1, Some e), st1) \<Longrightarrow> \<exists>m. e = UsageError c (Some m)"
  by (auto simp add: parse_def Let_def count_args_def
      split: Option.bind_splits option.splits prod.splits result.splits if_splits)

lemma print_error_eq:
  "stderr (nodes st) (Some c) = Some w \<Longrightarrow> Error st e = Some line \<Longrightarrow>
   print_error st c e = Some (st\<lparr>out := out st @ [Printf w (line @ newline)]\<rparr>)"
  by (simp add: print_error_def printf_def emit_def)

lemma parse_failed_usage:
  "parse_failed st c args (UsageError c cause) =
     Option.bind (print_error st c (UsageError c cause)) (\<lambda>st2.
       Option.bind (Help st2 c []) (\<lambda>(r, st3).
         Some (case r of Panic \<Rightarrow> Panicking (Some (UsageError c cause))
                       | Ok x \<Rightarrow> Returning (Some (UsageError c cause)), args, st3)))"
  by (auto simp add: parse_failed_def split: Option.bind_splits result.splits)

lemma run_deferred_error:
  "path_to_root (nodes st) c as \<Longrightarrow>
   run_deferred st c args (Some e) =
     (case find (has_policy (nodes st)) as of
        None \<Rightarrow> Some (Return (Some e), st)
      | Some n \<Rightarrow> call_policy (the (OnError (nodes st n))) st c args e)"
  by (auto simp add: run_deferred_def onError_def onError_loop_path has_policy_def
      split: option.splits dest: find_Some_iff [THEN iffD1])

text \<open>
  C1, as stated, sends a node without sub-commands that has an action to the action.
  \<open>Run\<close> tests whether the \<open>SubCommands\<close> field is nil, not whether it has elements: a
  command with an action and an empty, non-nil \<open>SubCommands\<close> slice, run with one token,
  goes to \<open>runsub\<close>, fails with "unknown command", and the action never runs (the
  action of the example would have written its arguments).
\<close>

theorem Run_empty_SubCommands_skips_action:
  "subs (nodes tree_no_children 0) = [] \<and> Func (nodes tree_no_children 0) = Some 0
   \<and> map_option fst (parse example_parser tree_no_children 0 [''x'']) = Some (Ok ([''x''], None))
   \<and> map_option (\<lambda>(r, s). (r, out s)) (Run example_parser example_actions 0 [''x''] tree_no_children)
       = Some (Return (Some (UsageError 0 (Some ''x: unknown command''))), [])"
  by code_simp

text \<open>
  C1, amended. When \<open>parse\<close> succeeds on a node: if the \<open>SubCommands\<close> field of the node
  is not nil (an empty slice counts) and at least one token remains, \<open>Run\<close> hands the
  remaining tokens to \<open>runsub\<close>, which runs the first child named by the first token on
  the rest of the tokens, with the child's parent set to the node, and with no such
  child returns "unknown command" without running the action; otherwise, if the node
  has a \<open>Func\<close>, the action runs with the remaining tokens; otherwise \<open>Run\<close> returns nil.
  What is returned passes through the deferred function.
\<close>

theorem Run_dispatch_priority:
  assumes "parse P st c args = Some (Ok (args1, None), st1)"
  shows "Run P A c args st =
           (if SubCommands (nodes st1 c) \<noteq> None \<and> args1 \<noteq> []
            then Option.bind (runsub P A c args1 st1) (\<lambda>(r, st2). deferred c (flow_of r, args1, st2))
            else (case Func (nodes st1 c) of
                    Some f \<Rightarrow> (case A f c args1 st1 of (err, st2) \<Rightarrow> run_deferred st2 c args1 err)
                  | None \<Rightarrow> Some (Return None, st1)))
         \<and> (\<forall>tok rest sc. args1 = tok # rest
               \<and> find (\<lambda>sc. Name (nodes st1 sc) = tok) (subs (nodes st1 c)) = Some sc
              \<longrightarrow> runsub P A c args1 st1 = Run P A sc rest (set_parent st1 sc c)
                  \<and> parent (nodes (set_parent st1 sc c) sc) = Some c)
         \<and> (\<forall>tok rest. args1 = tok # rest \<and> SubCommands (nodes st1 c) \<noteq> None
               \<and> tok \<notin> (\<lambda>sc. Name (nodes st1 sc)) ` set (subs (nodes st1 c))
              \<longrightarrow> Run P A c args st
                    = run_deferred st1 c args1 (Some (UsageError c (Some (tok @ '': unknown command'')))))"
proof (intro conjI allI impI)
  show "Run P A c args st =
           (if SubCommands (nodes st1 c) \<noteq> None \<and> args1 \<noteq> []
            then Option.bind (runsub P A c args1 st1) (\<lambda>(r, st2). deferred c (flow_of r, args1, st2))
            else (case Func (nodes st1 c) of
                    Some f \<Rightarrow> (case A f c args1 st1 of (err, st2) \<Rightarrow> run_deferred st2 c args1 err)
                  | None \<Rightarrow> Some (Return None, st1)))"
    unfolding Run_eq_body Run_body_parse_ok [OF assms]
    by (auto simp add: deferred_returning run_deferred_nil
        split: option.splits prod.splits Option.bind_splits)
next
  fix tok rest sc
  assume h: "args1 = tok # rest
    \<and> find (\<lambda>sc. Name (nodes st1 sc) = tok) (subs (nodes st1 c)) = Some sc"
  then show "runsub P A c args1 st1 = Run P A sc rest (set_parent st1 sc c)"
    by (simp add: runsub_child)
  show "parent (nodes (set_parent st1 sc c) sc) = Some c"
    by (simp add: set_parent_def)
next
  fix tok rest
  assume h: "args1 = tok # rest \<and> SubCommands (nodes st1 c) \<noteq> None
               \<and> tok \<notin> (\<lambda>sc. Name (nodes st1 sc)) ` set (subs (nodes st1 c))"
  then have "runsub P A c (tok # rest) st1 = Some (Return (Some (unknown_command c tok)), st1)"
    using runsub_unknown [OF find_name_None] by blast
  then show "Run P A c args st
        = run_deferred st1 c args1 (Some (UsageError c (Some (tok @ '': unknown command''))))"
    using h assms
    by (simp add: Run_eq_body Run_body_parse_ok flow_of_def deferred_returning unknown_command_def)
qed

theorem Run_dispatch_priority_witness:
  "map_option fst (parse example_parser tree 0 [''foo'', ''x'']) = Some (Ok ([''foo'', ''x''], None))
   \<and> map_option fst (Run example_parser example_actions 0 [''foo'', ''x''] tree)
       = Some (Return (Some (FuncError ''fatal error'')))
   \<and> map_option fst (parse example_parser tree 3 [''a'', ''b'']) = Some (Ok ([''a'', ''b''], None))
   \<and> map_option (\<lambda>(r, s). (r, out s)) (Run example_parser example_actions 3 [''a'', ''b''] tree)
       = Some (Return None, [Printf (Writer 9) ''a b''])
   \<and> map_option fst (parse example_parser tree 0 []) = Some (Ok ([], None))
   \<and> map_option fst (Run example_parser example_actions 0 [] tree) = Some (Return None)
   \<and> find (\<lambda>sc. Name (nodes (snd (the (parse example_parser tree 0 [''foo'', ''x'']))) sc) = ''foo'')
         (subs (nodes (snd (the (parse example_parser tree 0 [''foo'', ''x'']))) 0)) = Some 2
   \<and> runsub example_parser example_actions 0 [''foo'', ''x'']
         (snd (the (parse example_parser tree 0 [''foo'', ''x''])))
       = Run example_parser example_actions 2 [''x'']
           (set_parent (snd (the (parse example_parser tree 0 [''foo'', ''x'']))) 2 0)
   \<and> parent (nodes (set_parent (snd (the (parse example_parser tree 0 [''foo'', ''x'']))) 2 0) 2)
       = Some 0
   \<and> map_option fst (parse example_parser tree_no_children 0 [''x'']) = Some (Ok ([''x''], None))
   \<and> map_option (\<lambda>(r, s). (r, out s))
         (Run example_parser example_actions 0 [''x''] tree_no_children)
       = Some (Return (Some (UsageError 0 (Some ''x: unknown command''))), [])
   \<and> map_option (\<lambda>(r, s). (r, out s))
         (Run example_parser example_actions 0 [''x'']
            (solo (cmd0\<lparr>Name := ''cmd'', Func := Some 0\<rparr>)))
       = Some (Return None, [Printf (Writer 9) ''x''])"
proof -
  let ?P = example_parser and ?A = example_actions
  let ?s1 = "snd (the (parse ?P tree 0 [''foo'', ''x'']))"
  let ?s4 = "snd (the (parse ?P tree_no_children 0 [''x'']))"
  let ?nil = "solo (cmd0\<lparr>Name := ''cmd'', Func := Some 0\<rparr>)"
  let ?s5 = "snd (the (parse ?P ?nil 0 [''x'']))"
  have p4: "map_option fst (parse ?P tree_no_children 0 [''x'']) = Some (Ok ([''x''], None))"
    by code_simp
  then have h4: "parse ?P tree_no_children 0 [''x''] = Some (Ok ([''x''], None), ?s4)"
    by (cases "parse ?P tree_no_children 0 [''x'']") auto
  have "case SubCommands (nodes ?s4 0) of None \<Rightarrow> False | Some scs \<Rightarrow> True"
    "subs (nodes ?s4 0) = []"
    by code_simp+
  then have s4: "SubCommands (nodes ?s4 0) \<noteq> None"
    "''x'' \<notin> (\<lambda>sc. Name (nodes ?s4 sc)) ` set (subs (nodes ?s4 0))"
    by (auto split: option.splits)
  have e4: "map_option (\<lambda>(r, s). (r, out s))
        (run_deferred ?s4 0 [''x''] (Some (UsageError 0 (Some (''x'' @ '': unknown command'')))))
      = Some (Return (Some (UsageError 0 (Some ''x: unknown command''))), [])"
    by code_simp
  have r4: "Run ?P ?A 0 [''x''] tree_no_children
      = run_deferred ?s4 0 [''x''] (Some (UsageError 0 (Some (''x'' @ '': unknown command''))))"
    using Run_dispatch_priority [OF h4, of ?A, THEN conjunct2, THEN conjunct2, rule_format,
        of "''x''" "[]"] s4
    by simp
  have p5: "map_option fst (parse ?P ?nil 0 [''x'']) = Some (Ok ([''x''], None))"
    by code_simp
  then have h5: "parse ?P ?nil 0 [''x''] = Some (Ok ([''x''], None), ?s5)"
    by (cases "parse ?P ?nil 0 [''x'']") auto
  have "case SubCommands (nodes ?s5 0) of None \<Rightarrow> True | Some scs \<Rightarrow> False"
    by code_simp
  then have s5: "SubCommands (nodes ?s5 0) = None" by (auto split: option.splits)
  have f5: "Func (nodes ?s5 0) = Some 0" by code_simp
  have e5: "map_option (\<lambda>(r, s). (r, out s))
      (case ?A 0 0 [''x''] ?s5 of (err, st2) \<Rightarrow> run_deferred st2 0 [''x''] err)
      = Some (Return None, [Printf (Writer 9) ''x''])"
    by code_simp
  have r5: "Run ?P ?A 0 [''x''] ?nil
      = (case ?A 0 0 [''x''] ?s5 of (err, st2) \<Rightarrow> run_deferred st2 0 [''x''] err)"
    using Run_dispatch_priority [OF h5, of ?A, THEN conjunct1] s5 f5 by simp
  have fnd: "find (\<lambda>sc. Name (nodes ?s1 sc) = ''foo'') (subs (nodes ?s1 0)) = Some 2"
    by code_simp
  have p1: "map_option fst (parse ?P tree 0 [''foo'', ''x'']) = Some (Ok ([''foo'', ''x''], None))"
    by code_simp
  then have h1: "parse ?P tree 0 [''foo'', ''x'']
      = Some (Ok ([''foo'', ''x''], None), snd (the (parse ?P tree 0 [''foo'', ''x''])))"
    by (cases "parse ?P tree 0 [''foo'', ''x'']") auto
  have e1: "map_option fst (Option.bind
        (runsub ?P ?A 0 [''foo'', ''x''] (snd (the (parse ?P tree 0 [''foo'', ''x'']))))
        (\<lambda>(r, st2). deferred 0 (flow_of r, [''foo'', ''x''], st2)))
      = Some (Return (Some (FuncError ''fatal error'')))"
    unfolding runsub_def by code_simp
  have s1: "SubCommands (nodes (snd (the (parse ?P tree 0 [''foo'', ''x'']))) 0) \<noteq> None"
    by code_simp
  have p2: "map_option fst (parse ?P tree 3 [''a'', ''b'']) = Some (Ok ([''a'', ''b''], None))"
    by code_simp
  then have h2: "parse ?P tree 3 [''a'', ''b'']
      = Some (Ok ([''a'', ''b''], None), snd (the (parse ?P tree 3 [''a'', ''b''])))"
    by (cases "parse ?P tree 3 [''a'', ''b'']") auto
  have s2: "SubCommands (nodes (snd (the (parse ?P tree 3 [''a'', ''b'']))) 3) = None"
    "Func (nodes (snd (the (parse ?P tree 3 [''a'', ''b'']))) 3) = Some 0"
    by code_simp+
  have e2: "map_option (\<lambda>(r, s). (r, out s))
      (case ?A 0 3 [''a'', ''b''] (snd (the (parse ?P tree 3 [''a'', ''b'']))) of
         (err, st2) \<Rightarrow> run_deferred st2 3 [''a'', ''b''] err)
      = Some (Return None, [Printf (Writer 9) ''a b''])"
    by code_simp
  have p3: "map_option fst (parse ?P tree 0 []) = Some (Ok ([], None))"
    by code_simp
  then have h3: "parse ?P tree 0 [] = Some (Ok ([], None), snd (the (parse ?P tree 0 [])))"
    by (cases "parse ?P tree 0 []") auto
  have s3: "Func (nodes (snd (the (parse ?P tree 0 []))) 0) = None"
    by code_simp
  have child: "runsub ?P ?A 0 [''foo'', ''x''] ?s1 = Run ?P ?A 2 [''x''] (set_parent ?s1 2 0)
      \<and> parent (nodes (set_parent ?s1 2 0) 2) = Some 0"
    using Run_dispatch_priority [OF h1, of ?A, THEN conjunct2, THEN conjunct1, rule_format,
        of "''foo''" "[''x'']" 2] fnd
    by simp
  have old: "map_option fst (Run ?P ?A 0 [''foo'', ''x''] tree)
       = Some (Return (Some (FuncError ''fatal error'')))
     \<and> map_option (\<lambda>(r, s). (r, out s)) (Run ?P ?A 3 [''a'', ''b''] tree)
       = Some (Return None, [Printf (Writer 9) ''a b''])
     \<and> map_option fst (Run ?P ?A 0 [] tree) = Some (Return None)"
    using p1 p2 p3 e1 e2 s1 s2 s3
      Run_dispatch_priority [OF h1, of ?A, THEN conjunct1]
      Run_dispatch_priority [OF h2, of ?A, THEN conjunct1]
      Run_dispatch_priority [OF h3, of ?A, THEN conjunct1]
    by simp
  show ?thesis
    using p1 p2 p3 old fnd child p4 e4 e5 unfolding r4 r5 by simp
qed

text \<open>
  C3, as stated, says that running a node with children, no remaining tokens and no
  action yields "sub command required". \<open>Run\<close> does not call \<open>runsub\<close> without a token:
  on the tree of the tests, \<open>main\<close> has three children and no action, \<open>parse\<close> accepts
  the empty argument list, and \<open>Run\<close> with no arguments returns nil.
\<close>

theorem Run_without_tokens_and_action_returns_nil:
  "SubCommands (nodes tree 0) = Some [1, 2, 3] \<and> Func (nodes tree 0) = None
   \<and> map_option fst (parse example_parser tree 0 []) = Some (Ok ([], None))
   \<and> map_option fst (Run example_parser example_actions 0 [] tree) = Some (Return None)"
  by code_simp

text \<open>
  C3, amended. \<open>runsub\<close> fails by itself in exactly two ways, each a \<open>UsageError\<close> of the
  node that leaves the state as it is: without a token, "sub command required {...}"
  with the sorted child names, whether or not the node has an action; and with a first
  token that no child is named by, "<token>: unknown command". With a token that names
  a child it runs the child. The text of either error is the command path (the names
  from the root down to the node, joined by spaces), a colon and the message. When
  \<open>parse\<close> succeeds and leaves no token, \<open>RunSubcommands\<close> reaches the first failure and
  hands it to the deferred function, while \<open>Run\<close> does not call \<open>runsub\<close>: on a node
  without action it returns nil.
\<close>

theorem runsub_fails_in_two_ways:
  "(runsub P A c [] st =
      Some (Return (Some (UsageError c (Some (''sub command required {''
              @ Join (sort (map (\<lambda>sc. Name (nodes st sc)) (subs (nodes st c)))) '', '' @ ''}'')))), st))
   \<and> (\<forall>tok rest. tok \<notin> (\<lambda>sc. Name (nodes st sc)) ` set (subs (nodes st c)) \<longrightarrow>
         runsub P A c (tok # rest) st
           = Some (Return (Some (UsageError c (Some (tok @ '': unknown command'')))), st))
   \<and> (\<forall>tok rest. tok \<in> (\<lambda>sc. Name (nodes st sc)) ` set (subs (nodes st c)) \<longrightarrow>
         (\<exists>sc \<in> set (subs (nodes st c)). Name (nodes st sc) = tok
            \<and> runsub P A c (tok # rest) st = Run P A sc rest (set_parent st sc c)))
   \<and> (\<forall>s as m. path_to_root (nodes s) c as \<longrightarrow>
         Error s (UsageError c (Some m))
           = Some (Join (map (\<lambda>n. Name (nodes s n)) (rev as)) '' '' @ '': '' @ m))
   \<and> (\<forall>st0 args0. parse P st0 c args0 = Some (Ok ([], None), st) \<longrightarrow>
         RunSubcommands P A c args0 st0 = run_deferred st c [] (Some (sub_required st c))
         \<and> (Func (nodes st c) = None \<longrightarrow> Run P A c args0 st0 = Some (Return None, st)))"
proof (intro conjI allI impI)
  show "runsub P A c [] st =
      Some (Return (Some (UsageError c (Some (''sub command required {''
              @ Join (sort (map (\<lambda>sc. Name (nodes st sc)) (subs (nodes st c)))) '', '' @ ''}'')))), st)"
    by (simp add: runsub_nil sub_required_def subCommands_def)
next
  fix tok rest
  assume "tok \<notin> (\<lambda>sc. Name (nodes st sc)) ` set (subs (nodes st c))"
  then show "runsub P A c (tok # rest) st
           = Some (Return (Some (UsageError c (Some (tok @ '': unknown command'')))), st)"
    using runsub_unknown [OF find_name_None] by (simp add: unknown_command_def)
next
  fix tok rest
  assume "tok \<in> (\<lambda>sc. Name (nodes st sc)) ` set (subs (nodes st c))"
  then obtain sc where "sc \<in> set (subs (nodes st c))" "Name (nodes st sc) = tok"
    "find (\<lambda>sc. Name (nodes st sc) = tok) (subs (nodes st c)) = Some sc"
    using find_name_Some by blast
  then show "\<exists>sc \<in> set (subs (nodes st c)). Name (nodes st sc) = tok
            \<and> runsub P A c (tok # rest) st = Run P A sc rest (set_parent st sc c)"
    using runsub_child by blast
next
  fix s :: state and as m
  assume "path_to_root (nodes s) c as"
  then show "Error s (UsageError c (Some m))
           = Some (Join (map (\<lambda>n. Name (nodes s n)) (rev as)) '' '' @ '': '' @ m)"
    by (rule Error_usage_path)
next
  fix st0 args0
  assume p: "parse P st0 c args0 = Some (Ok ([], None), st)"
  show "RunSubcommands P A c args0 st0 = run_deferred st c [] (Some (sub_required st c))"
    by (simp add: RunSubcommands_parse_ok [OF p] runsub_nil flow_of_def deferred_returning)
  assume "Func (nodes st c) = None"
  then show "Run P A c args0 st0 = Some (Return None, st)"
    by (simp add: Run_eq_body Run_body_parse_ok [OF p] deferred_returning run_deferred_nil)
qed

theorem runsub_fails_in_two_ways_witness:
  "map_option fst (parse example_parser tree 0 []) = Some (Ok ([], None))
   \<and> ''bob'' \<notin> (\<lambda>sc. Name (nodes tree sc)) ` set (subs (nodes tree 0))
   \<and> ''foo'' \<in> (\<lambda>sc. Name (nodes tree sc)) ` set (subs (nodes tree 0))
   \<and> path_to_root (nodes tree) 0 [0]
   \<and> runsub example_parser example_actions 0 [] tree
       = Some (Return (Some (UsageError 0 (Some ''sub command required {bar, foo, help}''))), tree)
   \<and> Error tree (UsageError 0 (Some ''sub command required {bar, foo, help}''))
       = Some ''main: sub command required {bar, foo, help}''
   \<and> runsub example_parser example_actions 0 [''bob''] tree
       = Some (Return (Some (UsageError 0 (Some ''bob: unknown command''))), tree)
   \<and> Error tree (UsageError 0 (Some ''bob: unknown command'')) = Some ''main: bob: unknown command''
   \<and> runsub example_parser example_actions 0 [''foo'', ''x''] tree
       = Run example_parser example_actions 2 [''x''] (set_parent tree 2 0)
   \<and> map_option fst (RunSubcommands example_parser example_actions 0 [] tree)
       = Some (Return (Some (UsageError 0 (Some ''sub command required {bar, foo, help}''))))
   \<and> map_option fst (Run example_parser example_actions 0 [] tree) = Some (Return None)
   \<and> path_to_root (nodes tree_bar) 1 [1, 0]
   \<and> runsub example_parser example_actions 1 [] tree_bar
       = Some (Return (Some (UsageError 1 (Some ''sub command required {subbar}''))), tree_bar)
   \<and> Error tree_bar (UsageError 1 (Some ''sub command required {subbar}''))
       = Some ''main bar: sub command required {subbar}''
   \<and> runsub example_parser example_actions 1 [''bob'', ''x''] tree_bar
       = Some (Return (Some (UsageError 1 (Some ''bob: unknown command''))), tree_bar)
   \<and> Error tree_bar (UsageError 1 (Some ''bob: unknown command''))
       = Some ''main bar: bob: unknown command''"
proof -
  let ?P = example_parser and ?A = example_actions
  let ?st = "snd (the (parse ?P tree 0 []))"
  have pb: "path_to_root (nodes tree_bar) 1 [1, 0]"
    apply (rule path_to_root.step [where p = 0])
     apply code_simp
    apply (rule path_to_root.root)
    apply code_simp
    done
  have nb: "map (\<lambda>sc. Name (nodes tree_bar sc)) (subs (nodes tree_bar 1)) = [''subbar'']"
    "Join (map (\<lambda>n. Name (nodes tree_bar n)) (rev [1, 0])) '' '' = ''main bar''"
    by code_simp+
  have sb: "sort [''subbar''] = [''subbar'']" by simp
  have mb: "''bob'' \<notin> (\<lambda>sc. Name (nodes tree_bar sc)) ` set (subs (nodes tree_bar 1))"
    using nb(1) by (simp flip: set_map)
  note B = runsub_fails_in_two_ways [of ?P ?A 1 tree_bar]
  have b1: "runsub ?P ?A 1 [] tree_bar
       = Some (Return (Some (UsageError 1 (Some ''sub command required {subbar}''))), tree_bar)"
    using B [THEN conjunct1] nb(1) sb by simp
  have b2: "runsub ?P ?A 1 [''bob'', ''x''] tree_bar
       = Some (Return (Some (UsageError 1 (Some ''bob: unknown command''))), tree_bar)"
    using B [THEN conjunct2, THEN conjunct1, rule_format, OF mb, of "[''x'']"] by simp
  have b3: "Error tree_bar (UsageError 1 (Some m)) = Some (''main bar: '' @ m)" for m
    using B [THEN conjunct2, THEN conjunct2, THEN conjunct2, THEN conjunct1, rule_format, OF pb, of m]
      nb(2) by simp
  have p: "map_option fst (parse ?P tree 0 []) = Some (Ok ([], None))"
    by code_simp
  then have h: "parse ?P tree 0 [] = Some (Ok ([], None), ?st)"
    by (cases "parse ?P tree 0 []") auto
  have names: "map (\<lambda>sc. Name (nodes tree sc)) (subs (nodes tree 0)) = [''bar'', ''foo'', ''help'']"
    by code_simp
  have names': "map (\<lambda>sc. Name (nodes ?st sc)) (subs (nodes ?st 0)) = [''bar'', ''foo'', ''help'']"
    by code_simp
  have srt: "sort [''bar'', ''foo'', ''help''] = [''bar'', ''foo'', ''help'']"
    by code_simp
  have path: "path_to_root (nodes tree) 0 [0]"
    by (rule path_to_root.root) code_simp
  have nmain: "Name (nodes tree 0) = ''main''" by code_simp
  have f: "Func (nodes ?st 0) = None" by code_simp
  have d: "map_option fst (run_deferred ?st 0 [] (Some (sub_required ?st 0)))
             = Some (Return (Some (UsageError 0 (Some ''sub command required {bar, foo, help}''))))"
    by code_simp
  have mem: "''bob'' \<notin> (\<lambda>sc. Name (nodes tree sc)) ` set (subs (nodes tree 0))"
    "''foo'' \<in> (\<lambda>sc. Name (nodes tree sc)) ` set (subs (nodes tree 0))"
    using names by (simp_all flip: set_map)
  have two: "Name (nodes tree 2) = ''foo''" "set (subs (nodes tree 0)) = {1, 2, 3}"
    "Name (nodes tree 1) = ''bar''" "Name (nodes tree 3) = ''help''"
    by code_simp+
  note T = runsub_fails_in_two_ways [of ?P ?A 0 tree]
  note T' = runsub_fails_in_two_ways [of ?P ?A 0 ?st]
  have c1: "runsub ?P ?A 0 [] tree
       = Some (Return (Some (UsageError 0 (Some ''sub command required {bar, foo, help}''))), tree)"
    using T [THEN conjunct1] names srt by simp
  have c2: "runsub ?P ?A 0 [''bob''] tree
       = Some (Return (Some (UsageError 0 (Some ''bob: unknown command''))), tree)"
    using T [THEN conjunct2, THEN conjunct1, rule_format, OF mem(1), of "[]"] by simp
  obtain sc where sc: "sc \<in> set (subs (nodes tree 0))" "Name (nodes tree sc) = ''foo''"
    "runsub ?P ?A 0 [''foo'', ''x''] tree = Run ?P ?A sc [''x''] (set_parent tree sc 0)"
    using T [THEN conjunct2, THEN conjunct2, THEN conjunct1, rule_format, OF mem(2), of "[''x'']"]
    by blast
  have "sc = 2" using sc(1,2) two by auto
  then have c3: "runsub ?P ?A 0 [''foo'', ''x''] tree = Run ?P ?A 2 [''x''] (set_parent tree 2 0)"
    using sc(3) by simp
  have c4: "Error tree (UsageError 0 (Some m)) = Some (''main: '' @ m)" for m
    using T [THEN conjunct2, THEN conjunct2, THEN conjunct2, THEN conjunct1, rule_format, OF path, of m]
      nmain by simp
  have c5: "RunSubcommands ?P ?A 0 [] tree = run_deferred ?st 0 [] (Some (sub_required ?st 0))"
    "Run ?P ?A 0 [] tree = Some (Return None, ?st)"
    using T' [THEN conjunct2, THEN conjunct2, THEN conjunct2, THEN conjunct2, rule_format, OF h] f
    by simp_all
  show ?thesis
    using p mem path c1 c2 c3 c4 c5 d pb b1 b2 b3 by simp
qed

text \<open>
  C4, as stated, says that every \<open>UsageError\<close> of a run, the unknown sub-command among
  them, is printed where it is detected and followed by a help page. For an unknown
  sub-command nothing is written at all: the error is only returned.
\<close>

theorem Run_unknown_command_prints_nothing:
  "map_option (\<lambda>(r, s). (r, out s)) (Run example_parser example_actions 0 [''bob''] tree)
     = Some (Return (Some (UsageError 0 (Some ''bob: unknown command''))), [])"
  by code_simp

text \<open>
  C4, amended. A \<open>UsageError\<close> that \<open>parse\<close> returns (a flag error or a wrong number of
  arguments; \<open>parse\<close> returns no other error) is first printed to the node's resolved
  writer, then \<open>Help\<close> is called on the failing node (it shows the page of the node's
  parent when there is one, of the node itself otherwise), and then the error is returned
  through the deferred function (a panic of \<open>Help\<close> unwinds through it). The errors of
  \<open>runsub\<close>, unknown and missing sub-command, go to the deferred function in the
  state \<open>parse\<close> left: the node that detects them neither prints them nor calls \<open>Help\<close>.
\<close>

theorem parse_errors_are_printed_then_helped:
  "(\<forall>args1 e st1. parse P st c args = Some (Ok (args1, Some e), st1) \<longrightarrow>
      (\<exists>m. e = UsageError c (Some m))
      \<and> Run P A c args st =
          Option.bind (print_error st1 c e) (\<lambda>st2.
            Option.bind (Help st2 c []) (\<lambda>(r, st3).
              deferred c (case r of Panic \<Rightarrow> Panicking (Some e) | Ok x \<Rightarrow> Returning (Some e),
                          args1, st3)))
      \<and> (\<forall>w line. stderr (nodes st1) (Some c) = Some w \<and> Error st1 e = Some line \<longrightarrow>
           print_error st1 c e = Some (st1\<lparr>out := out st1 @ [Printf w (line @ newline)]\<rparr>)))
   \<and> (\<forall>tok rest st1. parse P st c args = Some (Ok (tok # rest, None), st1)
         \<and> SubCommands (nodes st1 c) \<noteq> None
         \<and> tok \<notin> (\<lambda>sc. Name (nodes st1 sc)) ` set (subs (nodes st1 c)) \<longrightarrow>
       Run P A c args st = run_deferred st1 c (tok # rest) (Some (unknown_command c tok)))
   \<and> (\<forall>st1. parse P st c args = Some (Ok ([], None), st1) \<longrightarrow>
       RunSubcommands P A c args st = run_deferred st1 c [] (Some (sub_required st1 c)))
   \<and> (\<forall>s. Help s c [] =
         Option.bind (stderr (nodes s) (Some c)) (\<lambda>w.
           help_page s w (case parent (nodes s c) of Some p \<Rightarrow> p | None \<Rightarrow> c)))"
proof (intro conjI allI impI)
  fix args1 e st1
  assume p: "parse P st c args = Some (Ok (args1, Some e), st1)"
  then obtain m where e: "e = UsageError c (Some m)"
    using parse_error_usage by blast
  then show "\<exists>m. e = UsageError c (Some m)" by blast
  show "Run P A c args st =
          Option.bind (print_error st1 c e) (\<lambda>st2.
            Option.bind (Help st2 c []) (\<lambda>(r, st3).
              deferred c (case r of Panic \<Rightarrow> Panicking (Some e) | Ok x \<Rightarrow> Returning (Some e),
                          args1, st3)))"
    unfolding Run_eq_body Run_body_parse_failed [OF p] e parse_failed_usage
    by (auto split: Option.bind_splits)
next
  fix args1 e st1 w line
  assume "stderr (nodes st1) (Some c) = Some w \<and> Error st1 e = Some line"
  then show "print_error st1 c e = Some (st1\<lparr>out := out st1 @ [Printf w (line @ newline)]\<rparr>)"
    by (simp add: print_error_eq)
next
  fix tok rest st1
  assume h: "parse P st c args = Some (Ok (tok # rest, None), st1)
         \<and> SubCommands (nodes st1 c) \<noteq> None
         \<and> tok \<notin> (\<lambda>sc. Name (nodes st1 sc)) ` set (subs (nodes st1 c))"
  then have "runsub P A c (tok # rest) st1 = Some (Return (Some (unknown_command c tok)), st1)"
    using runsub_unknown [OF find_name_None] by blast
  then show "Run P A c args st = run_deferred st1 c (tok # rest) (Some (unknown_command c tok))"
    using h by (simp add: Run_eq_body Run_body_parse_ok flow_of_def deferred_returning)
next
  fix st1
  assume p: "parse P st c args = Some (Ok ([], None), st1)"
  show "RunSubcommands P A c args st = run_deferred st1 c [] (Some (sub_required st1 c))"
    by (simp add: RunSubcommands_parse_ok [OF p] runsub_nil flow_of_def deferred_returning)
next
  fix s :: state
  show "Help s c [] =
         Option.bind (stderr (nodes s) (Some c)) (\<lambda>w.
           help_page s w (case parent (nodes s c) of Some p \<Rightarrow> p | None \<Rightarrow> c))"
    by (simp add: Help_def Let_def)
qed

theorem parse_errors_are_printed_then_helped_witness:
  "map_option fst (parse example_parser tree 0 [''-x''])
     = Some (Ok ([''-x''], Some (UsageError 0 (Some ''flag provided but not defined: -x''))))
   \<and> map_option (\<lambda>(r, s). (r, out s)) (Run example_parser example_actions 0 [''-x''] tree)
     = Some (Return (Some (UsageError 0 (Some ''flag provided but not defined: -x''))),
         [FlagsHelp ParseBuffer 0,
          Printf (Writer 0) (''main: flag provided but not defined: -x'' @ newline),
          UsageLine (Writer 0) 0 ''subcommand [...]'', FlagsHelp (Writer 0) 0,
          Printf (Writer 0) (newline @ ''Available sub commands:''),
          UsageLine (Writer 0) 1 ''WORD ...'', UsageLine (Writer 0) 2 ''arg0'',
          UsageLine (Writer 0) 3 ''...''])
   \<and> map_option fst (parse example_parser tree 0 [''bob'']) = Some (Ok ([''bob''], None))
   \<and> map_option (\<lambda>(r, s). (r, out s)) (Run example_parser example_actions 0 [''bob''] tree)
     = Some (Return (Some (UsageError 0 (Some ''bob: unknown command''))), [])"
proof -
  let ?P = example_parser and ?A = example_actions
  let ?e = "UsageError 0 (Some ''flag provided but not defined: -x'')"
  let ?st2 = "snd (the (parse ?P tree 0 [''bob'']))"
  have q: "map_option fst (parse ?P tree 0 [''bob'']) = Some (Ok ([''bob''], None))"
    by code_simp
  then have h2: "parse ?P tree 0 [''bob''] = Some (Ok ([''bob''], None), ?st2)"
    by (cases "parse ?P tree 0 [''bob'']") auto
  have names: "map (\<lambda>sc. Name (nodes ?st2 sc)) (subs (nodes ?st2 0)) = [''bar'', ''foo'', ''help'']"
    by code_simp
  have "case SubCommands (nodes ?st2 0) of None \<Rightarrow> False | Some scs \<Rightarrow> True"
    by code_simp
  then have sub: "SubCommands (nodes ?st2 0) \<noteq> None"
    by (auto split: option.splits)
  have nomem: "''bob'' \<notin> (\<lambda>sc. Name (nodes ?st2 sc)) ` set (subs (nodes ?st2 0))"
    using names by (simp flip: set_map)
  have run2: "Run ?P ?A 0 [''bob''] tree
      = run_deferred ?st2 0 [''bob''] (Some (unknown_command 0 ''bob''))"
    using parse_errors_are_printed_then_helped [of ?P tree 0 "[''bob'']" ?A,
        THEN conjunct2, THEN conjunct1, rule_format, of "''bob''" "[]" ?st2] h2 sub nomem
    by simp
  have ev2: "map_option (\<lambda>(r, s). (r, out s))
      (run_deferred ?st2 0 [''bob''] (Some (unknown_command 0 ''bob'')))
     = Some (Return (Some (UsageError 0 (Some ''bob: unknown command''))), [])"
    by code_simp
  let ?st1 = "snd (the (parse ?P tree 0 [''-x'']))"
  have p: "map_option fst (parse ?P tree 0 [''-x'']) = Some (Ok ([''-x''], Some ?e))"
    by code_simp
  then have h: "parse ?P tree 0 [''-x''] = Some (Ok ([''-x''], Some ?e), ?st1)"
    by (cases "parse ?P tree 0 [''-x'']") auto
  have run: "Run ?P ?A 0 [''-x''] tree =
      Option.bind (print_error ?st1 0 ?e) (\<lambda>st2.
        Option.bind (Help st2 0 []) (\<lambda>(r, st3).
          deferred 0 (case r of Panic \<Rightarrow> Panicking (Some ?e) | Ok x \<Rightarrow> Returning (Some ?e),
                      [''-x''], st3)))"
    using parse_errors_are_printed_then_helped [of ?P tree 0 "[''-x'']" ?A] h by blast
  have ev: "map_option (\<lambda>(r, s). (r, out s))
      (Option.bind (print_error ?st1 0 ?e) (\<lambda>st2.
        Option.bind (Help st2 0 []) (\<lambda>(r, st3).
          deferred 0 (case r of Panic \<Rightarrow> Panicking (Some ?e) | Ok x \<Rightarrow> Returning (Some ?e),
                      [''-x''], st3))))
     = Some (Return (Some ?e),
         [FlagsHelp ParseBuffer 0,
          Printf (Writer 0) (''main: flag provided but not defined: -x'' @ newline),
          UsageLine (Writer 0) 0 ''subcommand [...]'', FlagsHelp (Writer 0) 0,
          Printf (Writer 0) (newline @ ''Available sub commands:''),
          UsageLine (Writer 0) 1 ''WORD ...'', UsageLine (Writer 0) 2 ''arg0'',
          UsageLine (Writer 0) 3 ''...''])"
    by code_simp
  show ?thesis using p ev q ev2 unfolding run run2 by simp
qed

text \<open>
  C7. When the body of \<open>Run\<close> returns an error, the policy applied is the \<open>OnError\<close> of
  the first node that has one, from the node \<open>Run\<close> was called on upward along the
  parent chain, and what it gives replaces the outcome; when no node on the chain has
  one, the error is returned as it is and nothing else happens; \<open>ContinueOnError\<close>
  prints the error to the node's resolved writer and makes \<open>Run\<close> return nil.
\<close>

theorem error_policy_is_first_OnError_on_chain:
  assumes body: "Run_body P A c args st = Some (Returning (Some e), args1, st1)"
    and path: "path_to_root (nodes st1) c as"
  shows "Run P A c args st =
           (case find (has_policy (nodes st1)) as of
              None \<Rightarrow> Some (Return (Some e), st1)
            | Some n \<Rightarrow> call_policy (the (OnError (nodes st1 n))) st1 c args1 e)
       \<and> (\<forall>g. call_policy (UserOnError g) st1 c args1 e = Some (Return (g c args1 e), st1))
       \<and> (\<forall>w line. stderr (nodes st1) (Some c) = Some w \<and> Error st1 e = Some line \<longrightarrow>
            call_policy ContinueOnError st1 c args1 e
              = Some (Return None, st1\<lparr>out := out st1 @ [Printf w (line @ newline)]\<rparr>))"
proof (intro conjI allI impI)
  show "Run P A c args st =
           (case find (has_policy (nodes st1)) as of
              None \<Rightarrow> Some (Return (Some e), st1)
            | Some n \<Rightarrow> call_policy (the (OnError (nodes st1 n))) st1 c args1 e)"
    by (simp add: Run_eq_body body deferred_returning run_deferred_error [OF path])
next
  fix g
  show "call_policy (UserOnError g) st1 c args1 e = Some (Return (g c args1 e), st1)"
    by (simp add: call_policy_def)
next
  fix w line
  assume "stderr (nodes st1) (Some c) = Some w \<and> Error st1 e = Some line"
  then show "call_policy ContinueOnError st1 c args1 e
              = Some (Return None, st1\<lparr>out := out st1 @ [Printf w (line @ newline)]\<rparr>)"
    by (simp add: call_policy_def print_error_eq)
qed

lemma tree_continue_path:
  "path_to_root (nodes (snd (snd (the (Run_body example_parser example_actions 2 [] tree_continue))))) 2 [2, 0]"
  apply (rule path_to_root.step [where p = 0])
   apply code_simp
  apply (rule path_to_root.root)
  apply code_simp
  done

theorem error_policy_is_first_OnError_on_chain_witness:
  "map_option (\<lambda>(f, a, s). (f, a)) (Run_body example_parser example_actions 2 [] tree_continue)
     = Some (Returning (Some (UsageError 2 (Some ''requires at least 1 arguments''))), [])
   \<and> path_to_root (nodes (snd (snd (the (Run_body example_parser example_actions 2 [] tree_continue))))) 2 [2, 0]
   \<and> OnError (nodes tree_continue 2) = None
   \<and> OnError (nodes tree_continue 0) = Some ContinueOnError
   \<and> map_option (\<lambda>(r, s). (r, out s)) (Run example_parser example_actions 2 [] tree_continue)
     = Some (Return None,
         [Printf (Writer 0) (''main foo: requires at least 1 arguments'' @ newline),
          UsageLine (Writer 0) 0 ''subcommand [...]'', FlagsHelp (Writer 0) 0,
          Printf (Writer 0) (newline @ ''Available sub commands:''),
          UsageLine (Writer 0) 1 ''WORD ...'', UsageLine (Writer 0) 2 ''arg0'',
          UsageLine (Writer 0) 3 ''...'',
          Printf (Writer 0) (''main foo: requires at least 1 arguments'' @ newline)])"
proof -
  let ?P = example_parser and ?A = example_actions
  let ?e = "UsageError 2 (Some ''requires at least 1 arguments'')"
  let ?st1 = "snd (snd (the (Run_body ?P ?A 2 [] tree_continue)))"
  have b: "map_option (\<lambda>(f, a, s). (f, a)) (Run_body ?P ?A 2 [] tree_continue)
             = Some (Returning (Some ?e), [])"
    by code_simp
  then have body: "Run_body ?P ?A 2 [] tree_continue = Some (Returning (Some ?e), [], ?st1)"
    by (cases "Run_body ?P ?A 2 [] tree_continue") auto
  have path: "path_to_root (nodes ?st1) 2 [2, 0]" by (rule tree_continue_path)
  have "case OnError (nodes tree_continue 2) of None \<Rightarrow> True | Some f \<Rightarrow> False"
    "case OnError (nodes tree_continue 0) of Some ContinueOnError \<Rightarrow> True | _ \<Rightarrow> False"
    "case OnError (nodes ?st1 2) of None \<Rightarrow> True | Some f \<Rightarrow> False"
    "case OnError (nodes ?st1 0) of Some ContinueOnError \<Rightarrow> True | _ \<Rightarrow> False"
    by code_simp+
  then have pol: "OnError (nodes tree_continue 2) = None"
    "OnError (nodes tree_continue 0) = Some ContinueOnError"
    "OnError (nodes ?st1 2) = None" "OnError (nodes ?st1 0) = Some ContinueOnError"
    by (auto split: option.splits policy.splits)
  have w: "stderr (nodes ?st1) (Some 2) = Some (Writer 0)"
    "Error ?st1 ?e = Some ''main foo: requires at least 1 arguments''"
    by code_simp+
  have o: "out ?st1 =
         [Printf (Writer 0) (''main foo: requires at least 1 arguments'' @ newline),
          UsageLine (Writer 0) 0 ''subcommand [...]'', FlagsHelp (Writer 0) 0,
          Printf (Writer 0) (newline @ ''Available sub commands:''),
          UsageLine (Writer 0) 1 ''WORD ...'', UsageLine (Writer 0) 2 ''arg0'',
          UsageLine (Writer 0) 3 ''...'']"
    by code_simp
  note T = error_policy_is_first_OnError_on_chain [OF body path]
  have r: "Run ?P ?A 2 [] tree_continue = call_policy ContinueOnError ?st1 2 [] ?e"
    using T [THEN conjunct1] pol by (simp add: has_policy_def)
  have c: "call_policy ContinueOnError ?st1 2 [] ?e
      = Some (Return None, ?st1\<lparr>out := out ?st1
           @ [Printf (Writer 0) (''main foo: requires at least 1 arguments'' @ newline)]\<rparr>)"
    using T [THEN conjunct2, THEN conjunct2, rule_format, of "Writer 0"
                "''main foo: requires at least 1 arguments''"] w
    by simp
  show ?thesis
    using b path pol(1,2) by (simp add: r c o)
qed

section \<open>Persistent flags and defaults\<close>

text \<open>The state that \<open>parse\<close> leaves for a node with a flag set.\<close>

lemma parse_set_state:
  assumes reg: "register st c = Some (Some r, st1)"
  shows "\<exists>res st'. parse P st c args = Some (res, st')
           \<and> nodes st' = nodes st1 \<and> next_ref st' = next_ref st1
           \<and> structs st' = (structs st1)(r := fst (P (structs st1 r) args))"
proof -
  obtain fs perr rest where p: "P (structs st1 r) args = (fs, perr, rest)"
    by (cases "P (structs st1 r) args")
  show ?thesis
  proof (cases perr)
    case None
    then show ?thesis using parse_set_ok [OF reg, of P args fs rest] p by simp
  next
    case (Some m)
    show ?thesis
    proof (cases "parameters (nodes st1 c)")
      case (Ok ps)
      then show ?thesis using parse_set_error [OF reg, of P args fs m rest ps] p Some by simp
    next
      case Panic
      then show ?thesis using parse_set_panic [OF reg, of P args fs m rest] p Some by simp
    qed
  qed
qed

lemma parse_persistent:
  assumes "Defaults (nodes st c) = None" "Flags (nodes st c) = Some r"
    "command_path (nodes st) c = Some p"
  shows "\<exists>res st'. parse P st c args = Some (res, st')
           \<and> nodes st' = nodes st \<and> next_ref st' = next_ref st
           \<and> structs st' = (structs st)(r := fst (P (structs st r) args))"
  using parse_set_state [OF register_flags [OF assms]] by simp

lemma parse_ephemeral:
  assumes "Defaults (nodes st c) = Some d" "command_path (nodes st) c = Some p"
  shows "\<exists>res st'. parse P st c args = Some (res, st')
           \<and> nodes st' = (nodes st)(c := (nodes st c)\<lparr>Flags := Some (next_ref st)\<rparr>)
           \<and> next_ref st' = Suc (next_ref st)
           \<and> structs st' = (structs st)(next_ref st := fst (P (structs st d) args))"
  using parse_set_state [OF register_defaults [OF assms], of P args]
  by (auto simp add: set_Flags_def)

lemma command_path_Flags:
  "command_path h c = Some p \<Longrightarrow> command_path (h(a := (h a)\<lparr>Flags := x\<rparr>)) c = Some p"
  by (erule command_path_same_names) simp

text \<open>
  C6. On a chain that reaches the root, two invocations of \<open>parse\<close> in a row. A node
  bound by \<open>Flags\<close> alone parses into the same struct both times, the second time from
  what the first left there, so a flag that the second invocation does not touch keeps
  the value of the first. A node bound by \<open>Defaults\<close> gets a new copy of the prototype
  each time: the prototype is never written, and the values seen after the second
  invocation are those of parsing its arguments into the prototype's values, whatever
  the first invocation did.
\<close>

theorem persistent_flags_stick_and_defaults_reset:
  assumes path: "command_path (nodes st) c = Some p"
  shows "(Defaults (nodes st c) = None \<and> Flags (nodes st c) = Some r \<longrightarrow>
            (\<exists>res1 st1 res2 st2.
               parse P st c args1 = Some (res1, st1) \<and> parse P st1 c args2 = Some (res2, st2)
               \<and> Flags (nodes st1 c) = Some r \<and> Flags (nodes st2 c) = Some r
               \<and> structs st1 r = fst (P (structs st r) args1)
               \<and> structs st2 r = fst (P (structs st1 r) args2)
               \<and> (\<forall>f. fst (P (structs st1 r) args2) f = structs st1 r f \<longrightarrow>
                     flags_Lookup st2 (Flags (nodes st2 c)) f
                       = flags_Lookup st1 (Flags (nodes st1 c)) f)))
       \<and> (Defaults (nodes st c) = Some d \<and> d < next_ref st \<longrightarrow>
            (\<exists>res1 st1 res2 st2.
               parse P st c args1 = Some (res1, st1) \<and> parse P st1 c args2 = Some (res2, st2)
               \<and> Flags (nodes st1 c) = Some (next_ref st)
               \<and> Flags (nodes st2 c) = Some (Suc (next_ref st))
               \<and> Defaults (nodes st2 c) = Some d
               \<and> structs st1 d = structs st d \<and> structs st2 d = structs st d
               \<and> structs st1 (next_ref st) = fst (P (structs st d) args1)
               \<and> structs st2 (Suc (next_ref st)) = fst (P (structs st d) args2)
               \<and> (\<forall>f. flags_Lookup st2 (Flags (nodes st2 c)) f = fst (P (structs st d) args2) f)))"
proof (intro conjI impI)
  assume h: "Defaults (nodes st c) = None \<and> Flags (nodes st c) = Some r"
  from h have d: "Defaults (nodes st c) = None" and f: "Flags (nodes st c) = Some r"
    by simp_all
  from parse_persistent [OF d f path, of P args1]
  obtain res1 st1 where 1: "parse P st c args1 = Some (res1, st1)" "nodes st1 = nodes st"
    "structs st1 = (structs st)(r := fst (P (structs st r) args1))"
    by (elim exE conjE)
  have d1: "Defaults (nodes st1 c) = None" and f1: "Flags (nodes st1 c) = Some r"
    and path1: "command_path (nodes st1) c = Some p"
    using d f path 1(2) by simp_all
  from parse_persistent [OF d1 f1 path1, of P args2]
  obtain res2 st2 where 2: "parse P st1 c args2 = Some (res2, st2)" "nodes st2 = nodes st1"
    "structs st2 = (structs st1)(r := fst (P (structs st1 r) args2))"
    by (elim exE conjE)
  show "\<exists>res1 st1 res2 st2.
               parse P st c args1 = Some (res1, st1) \<and> parse P st1 c args2 = Some (res2, st2)
               \<and> Flags (nodes st1 c) = Some r \<and> Flags (nodes st2 c) = Some r
               \<and> structs st1 r = fst (P (structs st r) args1)
               \<and> structs st2 r = fst (P (structs st1 r) args2)
               \<and> (\<forall>f. fst (P (structs st1 r) args2) f = structs st1 r f \<longrightarrow>
                     flags_Lookup st2 (Flags (nodes st2 c)) f
                       = flags_Lookup st1 (Flags (nodes st1 c)) f)"
    using 1 2 h
    by (intro exI [of _ res1] exI [of _ st1] exI [of _ res2] exI [of _ st2])
       (simp add: flags_Lookup_def)
next
  assume h: "Defaults (nodes st c) = Some d \<and> d < next_ref st"
  from h have d: "Defaults (nodes st c) = Some d" by simp
  from parse_ephemeral [OF d path, of P args1]
  obtain res1 st1 where 1: "parse P st c args1 = Some (res1, st1)"
    "nodes st1 = (nodes st)(c := (nodes st c)\<lparr>Flags := Some (next_ref st)\<rparr>)"
    "next_ref st1 = Suc (next_ref st)"
    "structs st1 = (structs st)(next_ref st := fst (P (structs st d) args1))"
    by (elim exE conjE)
  have path1: "command_path (nodes st1) c = Some p"
    using path 1(2) by (simp add: command_path_Flags)
  have d1: "Defaults (nodes st1 c) = Some d" using h 1(2) by simp
  from parse_ephemeral [OF d1 path1, of P args2]
  obtain res2 st2 where 2: "parse P st1 c args2 = Some (res2, st2)"
    "nodes st2 = (nodes st1)(c := (nodes st1 c)\<lparr>Flags := Some (next_ref st1)\<rparr>)"
    "structs st2 = (structs st1)(next_ref st1 := fst (P (structs st1 d) args2))"
    by (elim exE conjE)
  show "\<exists>res1 st1 res2 st2.
               parse P st c args1 = Some (res1, st1) \<and> parse P st1 c args2 = Some (res2, st2)
               \<and> Flags (nodes st1 c) = Some (next_ref st)
               \<and> Flags (nodes st2 c) = Some (Suc (next_ref st))
               \<and> Defaults (nodes st2 c) = Some d
               \<and> structs st1 d = structs st d \<and> structs st2 d = structs st d
               \<and> structs st1 (next_ref st) = fst (P (structs st d) args1)
               \<and> structs st2 (Suc (next_ref st)) = fst (P (structs st d) args2)
               \<and> (\<forall>f. flags_Lookup st2 (Flags (nodes st2 c)) f = fst (P (structs st d) args2) f)"
    using 1 2 h
    by (intro exI [of _ res1] exI [of _ st1] exI [of _ res2] exI [of _ st2])
       (simp add: flags_Lookup_def)
qed

theorem persistent_flags_stick_and_defaults_reset_witness:
  "command_path (nodes tree) 0 = Some ''main''
   \<and> Defaults (nodes tree 0) = None \<and> Flags (nodes tree 0) = Some 0
   \<and> flags_Lookup tree (Flags (nodes tree 0)) ''name'' = Some (VString [])
   \<and> flags_Lookup (snd (the (parse example_parser tree 0 [''--name=foo'', ''bar''])))
        (Flags (nodes (snd (the (parse example_parser tree 0 [''--name=foo'', ''bar'']))) 0)) ''name''
       = Some (VString ''foo'')
   \<and> flags_Lookup
        (snd (the (parse example_parser
           (snd (the (parse example_parser tree 0 [''--name=foo'', ''bar'']))) 0 [''bar''])))
        (Flags (nodes (snd (the (parse example_parser
           (snd (the (parse example_parser tree 0 [''--name=foo'', ''bar'']))) 0 [''bar'']))) 0)) ''name''
       = Some (VString ''foo'')
   \<and> command_path (nodes tree) 2 = Some ''foo''
   \<and> Defaults (nodes tree 2) = Some 3 \<and> 3 < next_ref tree
   \<and> structs tree 3 ''name'' = Some (VString [])
   \<and> flags_Lookup (snd (the (parse example_parser tree 2 [''--name=x'', ''a''])))
        (Flags (nodes (snd (the (parse example_parser tree 2 [''--name=x'', ''a'']))) 2)) ''name''
       = Some (VString ''x'')
   \<and> flags_Lookup
        (snd (the (parse example_parser
           (snd (the (parse example_parser tree 2 [''--name=x'', ''a'']))) 2 [''a''])))
        (Flags (nodes (snd (the (parse example_parser
           (snd (the (parse example_parser tree 2 [''--name=x'', ''a'']))) 2 [''a'']))) 2)) ''name''
       = Some (VString [])"
proof -
  let ?P = example_parser
  let ?a1 = "[''--name=foo'', ''bar'']" and ?a2 = "[''bar'']"
  have path: "command_path (nodes tree) 0 = Some ''main''" by code_simp
  have df: "Defaults (nodes tree 0) = None \<and> Flags (nodes tree 0) = Some 0" by code_simp
  have l0: "flags_Lookup tree (Flags (nodes tree 0)) ''name'' = Some (VString [])" by code_simp
  from persistent_flags_stick_and_defaults_reset [OF path, of 0 ?P ?a1 ?a2, THEN conjunct1,
      rule_format, OF df]
  obtain res1 st1 res2 st2 where
    1: "parse ?P tree 0 ?a1 = Some (res1, st1)" and 2: "parse ?P st1 0 ?a2 = Some (res2, st2)"
    and f: "Flags (nodes st1 0) = Some 0" "Flags (nodes st2 0) = Some 0"
    and s1: "structs st1 0 = fst (?P (structs tree 0) ?a1)"
    and keep: "\<forall>f. fst (?P (structs st1 0) ?a2) f = structs st1 0 f \<longrightarrow>
                 flags_Lookup st2 (Flags (nodes st2 0)) f = flags_Lookup st1 (Flags (nodes st1 0)) f"
    by (elim exE conjE)
  have e1: "st1 = snd (the (parse ?P tree 0 ?a1))" using 1 by simp
  have e2: "st2 = snd (the (parse ?P (snd (the (parse ?P tree 0 ?a1))) 0 ?a2))"
    using 2 e1 by simp
  have v1: "fst (?P (structs tree 0) ?a1) ''name'' = Some (VString ''foo'')" by code_simp
  have l1: "flags_Lookup st1 (Flags (nodes st1 0)) ''name'' = Some (VString ''foo'')"
    using f s1 v1 by (simp add: flags_Lookup_def)
  have "fst (?P (structs st1 0) ?a2) ''name'' = structs st1 0 ''name''" by simp
  then have l2: "flags_Lookup st2 (Flags (nodes st2 0)) ''name'' = Some (VString ''foo'')"
    using keep l1 by simp
  let ?b1 = "[''--name=x'', ''a'']" and ?b2 = "[''a'']"
  have path2: "command_path (nodes tree) 2 = Some ''foo''" by code_simp
  have dd: "Defaults (nodes tree 2) = Some 3 \<and> 3 < next_ref tree" by code_simp
  have n: "next_ref tree = 4" by code_simp
  from persistent_flags_stick_and_defaults_reset [OF path2, of 0 ?P ?b1 ?b2 3, THEN conjunct2,
      rule_format, OF dd]
  obtain rs1 t1 rs2 t2 where
    3: "parse ?P tree 2 ?b1 = Some (rs1, t1)" and 4: "parse ?P t1 2 ?b2 = Some (rs2, t2)"
    and g: "Flags (nodes t1 2) = Some (next_ref tree)"
    and u1: "structs t1 (next_ref tree) = fst (?P (structs tree 3) ?b1)"
    and u2: "\<forall>f. flags_Lookup t2 (Flags (nodes t2 2)) f = fst (?P (structs tree 3) ?b2) f"
    by (elim exE conjE)
  have e3: "t1 = snd (the (parse ?P tree 2 ?b1))" using 3 by simp
  have e4: "t2 = snd (the (parse ?P (snd (the (parse ?P tree 2 ?b1))) 2 ?b2))"
    using 4 e3 by simp
  have v2: "fst (?P (structs tree 3) ?b1) ''name'' = Some (VString ''x'')"
    "fst (?P (structs tree 3) ?b2) ''name'' = Some (VString [])"
    "structs tree 3 ''name'' = Some (VString [])"
    by code_simp+
  have m1: "flags_Lookup t1 (Flags (nodes t1 2)) ''name'' = Some (VString ''x'')"
    using g u1 v2 by (simp add: flags_Lookup_def)
  have m2: "flags_Lookup t2 (Flags (nodes t2 2)) ''name'' = Some (VString [])"
    using u2 v2 by simp
  have A: "command_path (nodes tree) 0 = Some ''main''
    \<and> Defaults (nodes tree 0) = None \<and> Flags (nodes tree 0) = Some 0
    \<and> flags_Lookup tree (Flags (nodes tree 0)) ''name'' = Some (VString [])
    \<and> flags_Lookup st1 (Flags (nodes st1 0)) ''name'' = Some (VString ''foo'')
    \<and> flags_Lookup st2 (Flags (nodes st2 0)) ''name'' = Some (VString ''foo'')"
    using path df l0 l1 l2 by simp
  have B: "command_path (nodes tree) 2 = Some ''foo''
    \<and> Defaults (nodes tree 2) = Some 3 \<and> 3 < next_ref tree
    \<and> structs tree 3 ''name'' = Some (VString [])
    \<and> flags_Lookup t1 (Flags (nodes t1 2)) ''name'' = Some (VString ''x'')
    \<and> flags_Lookup t2 (Flags (nodes t2 2)) ''name'' = Some (VString [])"
    using path2 dd v2 m1 m2 by simp
  show ?thesis
    using A B unfolding e1 e2 e3 e4 by blast
qed

text \<open>
  C10. With both \<open>Defaults\<close> and \<open>Flags\<close> set, \<open>parse\<close> replaces the \<open>Flags\<close> field by a
  new copy of the prototype and parses into the copy: the values after the call come
  from the prototype and the arguments only, the struct \<open>Flags\<close> pointed to is not even
  read or written, and the node is left with both fields set again, so the next call
  does the same.
\<close>

theorem defaults_take_precedence_over_flags:
  assumes "Defaults (nodes st c) = Some d" and "Flags (nodes st c) = Some r0"
    and "command_path (nodes st) c = Some p"
    and "d < next_ref st" and "r0 < next_ref st"
  shows "\<exists>res st'. parse P st c args = Some (res, st')
           \<and> Flags (nodes st' c) = Some (next_ref st) \<and> next_ref st \<noteq> r0 \<and> next_ref st \<noteq> d
           \<and> structs st' (next_ref st) = fst (P (structs st d) args)
           \<and> structs st' r0 = structs st r0
           \<and> Defaults (nodes st' c) = Some d \<and> structs st' d = structs st d
           \<and> command_path (nodes st') c = Some p
           \<and> d < next_ref st' \<and> next_ref st < next_ref st'"
proof -
  from parse_ephemeral [OF assms(1,3), of P args]
  obtain res st' where 1: "parse P st c args = Some (res, st')"
    "nodes st' = (nodes st)(c := (nodes st c)\<lparr>Flags := Some (next_ref st)\<rparr>)"
    "next_ref st' = Suc (next_ref st)"
    "structs st' = (structs st)(next_ref st := fst (P (structs st d) args))"
    by (elim exE conjE)
  have "command_path (nodes st') c = Some p"
    using assms(3) 1(2) by (simp add: command_path_Flags)
  then show ?thesis
    using 1 assms by (intro exI [of _ res] exI [of _ st']) simp
qed

theorem defaults_take_precedence_over_flags_witness:
  "Defaults (nodes tree_both 2) = Some 3 \<and> Flags (nodes tree_both 2) = Some 1
   \<and> command_path (nodes tree_both) 2 = Some ''foo''
   \<and> next_ref tree_both = 4
   \<and> flags_Lookup tree_both (Flags (nodes tree_both 2)) ''value'' = Some (VInt 17)
   \<and> Flags (nodes (snd (the (parse example_parser tree_both 2 [''--name=x'', ''a'']))) 2) = Some 4
   \<and> structs (snd (the (parse example_parser tree_both 2 [''--name=x'', ''a'']))) 4 ''name''
       = Some (VString ''x'')
   \<and> structs (snd (the (parse example_parser tree_both 2 [''--name=x'', ''a'']))) 4 ''n''
       = Some (VInt 42)
   \<and> structs (snd (the (parse example_parser tree_both 2 [''--name=x'', ''a'']))) 4 ''value'' = None
   \<and> structs (snd (the (parse example_parser tree_both 2 [''--name=x'', ''a'']))) 1 ''value''
       = Some (VInt 17)"
proof -
  let ?P = example_parser
  let ?a = "[''--name=x'', ''a'']"
  have d: "Defaults (nodes tree_both 2) = Some 3" and f: "Flags (nodes tree_both 2) = Some 1"
    and path: "command_path (nodes tree_both) 2 = Some ''foo''"
    and n: "next_ref tree_both = 4"
    and l: "flags_Lookup tree_both (Flags (nodes tree_both 2)) ''value'' = Some (VInt 17)"
    by code_simp+
  have lt: "3 < next_ref tree_both" "1 < next_ref tree_both" using n by simp_all
  from defaults_take_precedence_over_flags [OF d f path lt, of ?P ?a]
  obtain res st' where p: "parse ?P tree_both 2 ?a = Some (res, st')"
    and r: "Flags (nodes st' 2) = Some (next_ref tree_both)"
    "structs st' (next_ref tree_both) = fst (?P (structs tree_both 3) ?a)"
    "structs st' 1 = structs tree_both 1"
    by (elim exE conjE)
  have e: "st' = snd (the (parse ?P tree_both 2 ?a))" using p by simp
  have v: "fst (?P (structs tree_both 3) ?a) ''name'' = Some (VString ''x'')"
    "fst (?P (structs tree_both 3) ?a) ''n'' = Some (VInt 42)"
    "fst (?P (structs tree_both 3) ?a) ''value'' = None"
    "structs tree_both 1 ''value'' = Some (VInt 17)"
    by code_simp+
  show ?thesis
    using d f path n l r v unfolding e by simp
qed


end
